theory Spec2Isabelle
  imports Main "HOL-Library.AList" "HOL-Library.Sublist"
begin

section \<open>Paths and the canonical trees on disk\<close>

text \<open>
  An absolute, normalised path is the list of its segments below the filesystem root; a
  segment holds no separator. \<open>path.join(p, name)\<close> appends one segment,
  \<open>path.dirname\<close> drops the last one (the root is its own parent) and
  \<open>path.basename\<close> reads it.
\<close>

type_synonym path = "string list"

definition join :: "path \<Rightarrow> string \<Rightarrow> path" where
  "join p n = p @ [n]"

definition dirname :: "path \<Rightarrow> path" where
  "dirname p = butlast p"

definition basename :: "path \<Rightarrow> string" where
  "basename p = (if p = [] then [] else last p)"

text \<open>\<open>path.resolve\<close>: an absolute path, normalised segment by segment.\<close>

definition normStep :: "path \<Rightarrow> string \<Rightarrow> path" where
  "normStep p s = (if s = [] \<or> s = ''.'' then p else if s = ''..'' then butlast p else p @ [s])"

definition path_resolve :: "path \<Rightarrow> path" where
  "path_resolve p = foldl normStep [] p"

definition path_resolve_from :: "path \<Rightarrow> string list \<Rightarrow> path" where
  "path_resolve_from base segs = foldl normStep [] (base @ segs)"

text \<open>
  Where the code compares a path with a string that the caller wrote, the strings count.
  \<open>pathString\<close> is the string of an absolute, normalised path, as \<open>path.resolve\<close>,
  \<open>path.join\<close> and \<open>path.dirname\<close> return it: the root is \<open>/\<close>, and no other path
  ends with a separator. \<open>resolveString\<close> reads a string as the operating system does:
  split at the separators, relative to the working directory unless it starts with one,
  and normalised.
\<close>

definition pathString :: "path \<Rightarrow> string" where
  "pathString p = (if p = [] then ''/'' else concat (map (\<lambda>s. CHR ''/'' # s) p))"

fun splitPath :: "string \<Rightarrow> string list" where
  "splitPath [] = [[]]"
| "splitPath (c # cs) =
     (if c = CHR ''/'' then [] # splitPath cs
      else (case splitPath cs of [] \<Rightarrow> [[c]] | s # ss \<Rightarrow> (c # s) # ss))"

definition isAbsoluteString :: "string \<Rightarrow> bool" where
  "isAbsoluteString s = (s \<noteq> [] \<and> hd s = CHR ''/'')"

definition resolveString :: "path \<Rightarrow> string \<Rightarrow> path" where
  "resolveString cwd s = foldl normStep (if isAbsoluteString s then [] else cwd) (splitPath s)"

text \<open>The segments of a normalised path are not empty, hold no separator and are not dots.\<close>

definition normalised :: "path \<Rightarrow> bool" where
  "normalised p = (\<forall>s \<in> set p. s \<noteq> [] \<and> CHR ''/'' \<notin> set s \<and> s \<noteq> ''.'' \<and> s \<noteq> ''..'')"

text \<open>
  The canonical trees hold regular files and directories. A directory is the association
  list of its entries, read through \<open>map_of\<close>; \<open>wf_node\<close> says that no directory lists a name
  twice, as no directory on disk does.
\<close>

datatype fsnode = File string | Dir "(string \<times> fsnode) list"

fun wf_node :: "fsnode \<Rightarrow> bool" where
  "wf_node (File c) = True"
| "wf_node (Dir es) = (distinct (map fst es) \<and> (\<forall>e \<in> set es. wf_node (snd e)))"

fun lookup :: "fsnode \<Rightarrow> path \<Rightarrow> fsnode option" where
  "lookup n [] = Some n"
| "lookup (File c) (s # p) = None"
| "lookup (Dir es) (s # p) = (case map_of es s of None \<Rightarrow> None | Some n \<Rightarrow> lookup n p)"

text \<open>
  Modelled from the spec: the helpers of \<open>utils/fs\<close> (\<open>pathExists\<close>, \<open>readText\<close>,
  \<open>ensureDir\<close>, \<open>writeText\<close>, \<open>listFiles\<close>, \<open>listDirs\<close>) are not among the sources; they
  are modelled by their names and by the way the merge engine uses them. A failing
  filesystem call rejects the promise: the result is \<open>None\<close>.
\<close>

definition pathExists :: "fsnode \<Rightarrow> path \<Rightarrow> bool" where
  "pathExists fs p = (lookup fs p \<noteq> None)"

definition readText :: "fsnode \<Rightarrow> path \<Rightarrow> string option" where
  "readText fs p = (case lookup fs p of Some (File c) \<Rightarrow> Some c | _ \<Rightarrow> None)"

text \<open>\<open>mkdir\<close> with \<open>recursive: true\<close>: missing directories are created, a file on the way fails.\<close>

fun ensureDir :: "fsnode \<Rightarrow> path \<Rightarrow> fsnode option" where
  "ensureDir (File c) p = None"
| "ensureDir (Dir es) [] = Some (Dir es)"
| "ensureDir (Dir es) (s # p) =
     (case ensureDir (case map_of es s of None \<Rightarrow> Dir [] | Some n \<Rightarrow> n) p of
        None \<Rightarrow> None
      | Some n' \<Rightarrow> Some (Dir (AList.update s n' es)))"

text \<open>
  Writing a file (\<open>writeText\<close>, and the write half of \<open>fs.copyFile\<close>): the parent must be
  a directory, and the path itself must not be one.
\<close>

fun writeFile :: "fsnode \<Rightarrow> path \<Rightarrow> string \<Rightarrow> fsnode option" where
  "writeFile n [] c = None"
| "writeFile (File d) (s # p) c = None"
| "writeFile (Dir es) [s] c =
     (case map_of es s of
        Some (Dir ds) \<Rightarrow> None
      | _ \<Rightarrow> Some (Dir (AList.update s (File c) es)))"
| "writeFile (Dir es) (s # p) c =
     (case map_of es s of
        None \<Rightarrow> None
      | Some n \<Rightarrow>
          (case writeFile n p c of
             None \<Rightarrow> None
           | Some n' \<Rightarrow> Some (Dir (AList.update s n' es))))"

definition copyFile :: "fsnode \<Rightarrow> path \<Rightarrow> path \<Rightarrow> fsnode option" where
  "copyFile fs src dest =
     (case lookup fs src of Some (File c) \<Rightarrow> writeFile fs dest c | _ \<Rightarrow> None)"

text \<open>\<open>fs.rm\<close> with \<open>recursive\<close> and \<open>force\<close>: the entry and everything below it goes.\<close>

fun rmTree :: "fsnode \<Rightarrow> path \<Rightarrow> fsnode" where
  "rmTree n [] = n"
| "rmTree (File c) (s # p) = File c"
| "rmTree (Dir es) [s] = Dir (AList.delete s es)"
| "rmTree (Dir es) (s # p) =
     (case map_of es s of
        None \<Rightarrow> Dir es
      | Some n \<Rightarrow> Dir (AList.update s (rmTree n p) es))"

section \<open>The merge engine (core/merge.ts)\<close>

subsection \<open>Strings\<close>

text \<open>
  A string is a list of 8-bit characters. Of the white space that \<open>String.prototype.trim\<close>
  removes, these are TAB, LF, VT, FF, CR, the space and the no-break space.
\<close>

definition is_ws :: "char \<Rightarrow> bool" where
  "is_ws c = (c \<in> set [CHR 0x09, CHR 0x0A, CHR 0x0B, CHR 0x0C, CHR 0x0D, CHR 0x20, CHR 0xA0])"

definition trimStart :: "string \<Rightarrow> string" where
  "trimStart s = dropWhile is_ws s"

definition trimEnd :: "string \<Rightarrow> string" where
  "trimEnd s = rev (dropWhile is_ws (rev s))"

definition trim :: "string \<Rightarrow> string" where
  "trim s = trimEnd (trimStart s)"

definition MERGED_DIR :: string where
  "MERGED_DIR = ''merged''"

definition SEPARATOR :: string where
  "SEPARATOR = [CHR 0x0A, CHR 0x0A] @ ''---'' @ [CHR 0x0A, CHR 0x0A]"

definition getMergedDir :: "path \<Rightarrow> path" where
  "getMergedDir agentsRoot = join agentsRoot MERGED_DIR"

subsection \<open>Markdown\<close>

text \<open>The loop of \<open>mergeMarkdownChain\<close>, with \<open>result\<close> as the accumulator.\<close>

fun mergeMarkdownLoop :: "fsnode \<Rightarrow> path list \<Rightarrow> string \<Rightarrow> string option" where
  "mergeMarkdownLoop fs [] result = Some result"
| "mergeMarkdownLoop fs (filePath # rest) result =
     (if \<not> pathExists fs filePath then mergeMarkdownLoop fs rest result
      else
        (case readText fs filePath of
           None \<Rightarrow> None
         | Some content \<Rightarrow>
             if trim content = [] then mergeMarkdownLoop fs rest result
             else if result = [] then mergeMarkdownLoop fs rest content
             else mergeMarkdownLoop fs rest (trimEnd result @ SEPARATOR @ trimStart content)))"

definition mergeMarkdownChain :: "fsnode \<Rightarrow> path list \<Rightarrow> string option" where
  "mergeMarkdownChain fs filePaths = mergeMarkdownLoop fs filePaths []"

subsection \<open>Directories\<close>

datatype ExtendBehavior = Inherit | Override | Extend | Compose

text \<open>
  \<open>copyDirectoryContents\<close> copies the files of the source and then recurses into its
  sub-directories. The listing of the source (\<open>listFiles\<close>, \<open>listDirs\<close>) is the list of
  its entries, read when the copy starts; the writes go to the destination path. Source and
  destination are disjoint sub-trees wherever the merge engine calls it on a chain whose
  roots do not lie inside a merge directory.
\<close>

fun copyFiles :: "(string \<times> fsnode) list \<Rightarrow> path \<Rightarrow> fsnode \<Rightarrow> fsnode option" where
  "copyFiles [] destDir fs = Some fs"
| "copyFiles ((fileName, File c) # files) destDir fs =
     (case writeFile fs (join destDir fileName) c of
        None \<Rightarrow> None
      | Some fs' \<Rightarrow> copyFiles files destDir fs')"
| "copyFiles ((dirName, Dir es) # files) destDir fs = copyFiles files destDir fs"

fun copyTree :: "(string \<times> fsnode) list \<Rightarrow> path \<Rightarrow> fsnode \<Rightarrow> fsnode option"
  and copySubdirs :: "(string \<times> fsnode) list \<Rightarrow> path \<Rightarrow> fsnode \<Rightarrow> fsnode option" where
  "copyTree entries destDir fs =
     (case ensureDir fs destDir of
        None \<Rightarrow> None
      | Some fs1 \<Rightarrow>
          (case copyFiles entries destDir fs1 of
             None \<Rightarrow> None
           | Some fs2 \<Rightarrow> copySubdirs entries destDir fs2))"
| "copySubdirs [] destDir fs = Some fs"
| "copySubdirs ((fileName, File c) # dirs) destDir fs = copySubdirs dirs destDir fs"
| "copySubdirs ((dirName, Dir es) # dirs) destDir fs =
     (case copyTree es (join destDir dirName) fs of
        None \<Rightarrow> None
      | Some fs' \<Rightarrow> copySubdirs dirs destDir fs')"

declare copyTree.simps [simp del]

definition copyDirectoryContents :: "fsnode \<Rightarrow> path \<Rightarrow> path \<Rightarrow> fsnode option" where
  "copyDirectoryContents fs srcDir destDir =
     (case lookup fs srcDir of Some (Dir es) \<Rightarrow> copyTree es destDir fs | _ \<Rightarrow> None)"

text \<open>The directories of the chain that have the resource, nearest first.\<close>

definition dirsWithContent :: "fsnode \<Rightarrow> path list \<Rightarrow> string \<Rightarrow> path list" where
  "dirsWithContent fs agentsPaths resource =
     filter (pathExists fs) (map (\<lambda>agentsPath. join agentsPath resource) agentsPaths)"

fun copyChain :: "fsnode \<Rightarrow> path list \<Rightarrow> path \<Rightarrow> fsnode option" where
  "copyChain fs [] mergedDir = Some fs"
| "copyChain fs (dir # dirs) mergedDir =
     (case copyDirectoryContents fs dir mergedDir of
        None \<Rightarrow> None
      | Some fs' \<Rightarrow> copyChain fs' dirs mergedDir)"

definition endsWithSlash :: "string \<Rightarrow> bool" where
  "endsWithSlash s = (s \<noteq> [] \<and> last s = CHR ''/'')"

text \<open>The inner loop of \<open>mergeCompose\<close>: the first parent that has the item.\<close>

fun findInParents :: "fsnode \<Rightarrow> path list \<Rightarrow> string \<Rightarrow> string \<Rightarrow> (string \<times> path) option" where
  "findInParents fs [] resource itemName = None"
| "findInParents fs (parentPath # parentPaths) resource itemName =
     (let resourceDir = join parentPath resource in
      if \<not> pathExists fs resourceDir then findInParents fs parentPaths resource itemName
      else
        let isDirectory = endsWithSlash itemName;
            cleanName = (if isDirectory then butlast itemName else itemName);
            itemPath = join resourceDir cleanName
        in if pathExists fs itemPath then Some (cleanName, itemPath)
           else findInParents fs parentPaths resource itemName)"

fun copyItems :: "fsnode \<Rightarrow> (string \<times> path) list \<Rightarrow> path \<Rightarrow> fsnode option" where
  "copyItems fs [] mergedDir = Some fs"
| "copyItems fs ((name, sourcePath) # items) mergedDir =
     (let destPath = join mergedDir name in
      case lookup fs sourcePath of
        None \<Rightarrow> None
      | Some (Dir es) \<Rightarrow>
          (case copyDirectoryContents fs sourcePath destPath of
             None \<Rightarrow> None
           | Some fs' \<Rightarrow> copyItems fs' items mergedDir)
      | Some (File c) \<Rightarrow>
          (case copyFile fs sourcePath destPath of
             None \<Rightarrow> None
           | Some fs' \<Rightarrow> copyItems fs' items mergedDir))"

definition mergeCompose ::
  "fsnode \<Rightarrow> path list \<Rightarrow> path \<Rightarrow> string \<Rightarrow> string list \<Rightarrow> (fsnode \<times> path option) option" where
  "mergeCompose fs agentsPaths currentRoot resource includeList =
     (let currentDir = join currentRoot resource;
          currentExists = pathExists fs currentDir;
          parentPaths = filter (\<lambda>p. p \<noteq> currentRoot) agentsPaths
      in
        if length includeList = 0 \<and> \<not> currentExists then Some (fs, None)
        else if length includeList = 0 \<and> currentExists then Some (fs, Some currentDir)
        else
          let itemsToInclude = List.map_filter (findInParents fs parentPaths resource) includeList
          in
            if length itemsToInclude = 0 \<and> \<not> currentExists then Some (fs, None)
            else if length itemsToInclude = 0 \<and> currentExists then Some (fs, Some currentDir)
            else
              let mergedDir = join (join currentRoot MERGED_DIR) resource in
              case ensureDir fs mergedDir of
                None \<Rightarrow> None
              | Some fs1 \<Rightarrow>
                  (case copyItems fs1 itemsToInclude mergedDir of
                     None \<Rightarrow> None
                   | Some fs2 \<Rightarrow>
                       if currentExists then
                         (case copyDirectoryContents fs2 currentDir mergedDir of
                            None \<Rightarrow> None
                          | Some fs3 \<Rightarrow> Some (fs3, Some mergedDir))
                       else Some (fs2, Some mergedDir)))"

definition mergeDirectoryChain ::
  "fsnode \<Rightarrow> path list \<Rightarrow> path \<Rightarrow> string \<Rightarrow> ExtendBehavior \<Rightarrow> string list option \<Rightarrow>
     (fsnode \<times> path option) option" where
  "mergeDirectoryChain fs agentsPaths currentRoot resource behavior includeList =
     (case behavior of
        Override \<Rightarrow>
          (let currentDir = join currentRoot resource in
           Some (fs, if pathExists fs currentDir then Some currentDir else None))
      | Inherit \<Rightarrow>
          Some (fs, find (pathExists fs) (map (\<lambda>agentsPath. join agentsPath resource) agentsPaths))
      | Compose \<Rightarrow>
          mergeCompose fs agentsPaths currentRoot resource
            (case includeList of None \<Rightarrow> [] | Some l \<Rightarrow> l)
      | Extend \<Rightarrow>
          (let dirs = dirsWithContent fs agentsPaths resource in
           if length dirs = 0 then Some (fs, None)
           else if length dirs = 1 then Some (fs, Some (hd dirs))
           else
             let mergedDir = join (join currentRoot MERGED_DIR) resource in
             case ensureDir fs mergedDir of
               None \<Rightarrow> None
             | Some fs1 \<Rightarrow>
                 (case copyChain fs1 (rev dirs) mergedDir of
                    None \<Rightarrow> None
                  | Some fs2 \<Rightarrow> Some (fs2, Some mergedDir))))"

subsection \<open>The instructions file\<close>

text \<open>At one root \<open>CLAUDE.md\<close> is taken before \<open>AGENTS.md\<close>; every branch of \<open>mergeAgentsMd\<close> asks so.\<close>

definition claudeOrAgents :: "fsnode \<Rightarrow> path \<Rightarrow> path option" where
  "claudeOrAgents fs agentsRoot =
     (let claudePath = join agentsRoot ''CLAUDE.md'';
          agentsPath = join agentsRoot ''AGENTS.md''
      in if pathExists fs claudePath then Some claudePath
         else if pathExists fs agentsPath then Some agentsPath
         else None)"

fun firstInstructions :: "fsnode \<Rightarrow> path list \<Rightarrow> path option" where
  "firstInstructions fs [] = None"
| "firstInstructions fs (agentsRoot # agentsPaths) =
     (case claudeOrAgents fs agentsRoot of
        Some p \<Rightarrow> Some p
      | None \<Rightarrow> firstInstructions fs agentsPaths)"

definition mergeAgentsMd ::
  "fsnode \<Rightarrow> path list \<Rightarrow> path \<Rightarrow> ExtendBehavior \<Rightarrow> (fsnode \<times> path option) option" where
  "mergeAgentsMd fs agentsPaths currentRoot behavior =
     (if behavior = Override then Some (fs, claudeOrAgents fs currentRoot)
      else if behavior = Inherit then Some (fs, firstInstructions fs agentsPaths)
      else
        let filesToMerge = List.map_filter (claudeOrAgents fs) agentsPaths in
        if length filesToMerge = 0 then Some (fs, None)
        else if length filesToMerge = 1 then Some (fs, Some (hd filesToMerge))
        else
          (case mergeMarkdownChain fs (rev filesToMerge) of
             None \<Rightarrow> None
           | Some mergedContent \<Rightarrow>
               let mergedPath = join (join currentRoot MERGED_DIR) ''AGENTS.md'' in
               (case ensureDir fs (dirname mergedPath) of
                  None \<Rightarrow> None
                | Some fs1 \<Rightarrow>
                    (case writeFile fs1 mergedPath mergedContent of
                       None \<Rightarrow> None
                     | Some fs2 \<Rightarrow> Some (fs2, Some mergedPath)))))"

definition cleanMergedDir :: "fsnode \<Rightarrow> path \<Rightarrow> fsnode" where
  "cleanMergedDir fs agentsRoot =
     (let mergedDir = getMergedDir agentsRoot in
      if pathExists fs mergedDir then rmTree fs mergedDir else fs)"

section \<open>The chain resolver (core/monorepo.ts)\<close>

record InheritanceChain =
  global :: "path option"
  ancestors :: "path list"
  current :: "path option"

text \<open>
  The \<open>while (true)\<close> of \<open>detectMonorepoChain\<close>. \<open>homeDir\<close> is the string
  \<open>opts.homeDir || os.homedir()\<close>, which the code never resolves: the walk compares it, as
  it is written, with the strings of the directory it is in and of its parent. The walk
  starts at \<open>startDir\<close>, the path that \<open>path.resolve\<close> returned. Every round but the last
  moves to the parent, which is shorter.
\<close>

function walkUp :: "fsnode \<Rightarrow> string \<Rightarrow> path \<Rightarrow> path list \<Rightarrow> path list" where
  "walkUp fs homeDir currentDir agentsFolders =
     (let agentsPath = join currentDir ''.agents'';
          found = (if pathExists fs agentsPath then agentsFolders @ [agentsPath] else agentsFolders);
          parentDir = dirname currentDir
      in if parentDir = currentDir \<or> pathString parentDir = homeDir \<or> pathString currentDir = homeDir
         then found
         else walkUp fs homeDir parentDir found)"
  by pat_completeness auto
termination
proof (relation "measure (\<lambda>(fs, homeDir, currentDir, agentsFolders). length currentDir)", goal_cases)
  case 1
  show ?case by simp
next
  case (2 fs homeDir currentDir agentsFolders x xa xb)
  then have "currentDir \<noteq> []" by (auto simp: dirname_def)
  with 2 show ?case by (simp add: dirname_def)
qed

declare walkUp.simps [simp del]

text \<open>
  \<open>path.join(homeDir, '.agents')\<close> normalises the string; the chain holds the path it
  stands for, read from the working directory \<open>cwd\<close> when \<open>homeDir\<close> is relative.
\<close>

definition detectMonorepoChain :: "fsnode \<Rightarrow> path \<Rightarrow> string \<Rightarrow> path \<Rightarrow> InheritanceChain" where
  "detectMonorepoChain fs cwd homeDir startDir =
     (let globalAgents = join (resolveString cwd homeDir) ''.agents'';
          agentsFolders = walkUp fs homeDir startDir []
      in \<lparr> global = (if pathExists fs globalAgents then Some globalAgents else None),
           ancestors = (if length agentsFolders > 0 then drop 1 agentsFolders else []),
           current = (if length agentsFolders > 0 then Some (hd agentsFolders) else None) \<rparr>)"

definition hasMonorepoParent :: "InheritanceChain \<Rightarrow> bool" where
  "hasMonorepoParent chain = (length (ancestors chain) > 0 \<or> global chain \<noteq> None)"

definition getEffectiveChain :: "InheritanceChain \<Rightarrow> path list" where
  "getEffectiveChain chain =
     (case current chain of None \<Rightarrow> [] | Some c \<Rightarrow> [c]) @ ancestors chain @
     (case global chain of None \<Rightarrow> [] | Some g \<Rightarrow> [g])"

section \<open>Configuration (core/config.ts)\<close>

datatype ResourceName = ResAgentsMd | ResCommands | ResSkills | ResHooks

record ExtendsMap =
  ext_AGENTS_md :: "ExtendBehavior option"
  ext_commands :: "ExtendBehavior option"
  ext_skills :: "ExtendBehavior option"
  ext_hooks :: "ExtendBehavior option"
  ext_default :: "ExtendBehavior option"

datatype ExtendsConfig = ExtendsAll bool | ExtendsPer ExtendsMap

record IncludeConfig =
  inc_commands :: "string list option"
  inc_skills :: "string list option"
  inc_hooks :: "string list option"

record MonorepoConfig =
  cfg_extends :: "ExtendsConfig option"
  cfg_include :: "IncludeConfig option"
  cfg_exclude :: "string list option"

definition emptyConfig :: MonorepoConfig where
  "emptyConfig = \<lparr> cfg_extends = None, cfg_include = None, cfg_exclude = None \<rparr>"

definition resourceName :: "ResourceName \<Rightarrow> string" where
  "resourceName r =
     (case r of ResAgentsMd \<Rightarrow> ''AGENTS.md'' | ResCommands \<Rightarrow> ''commands''
      | ResSkills \<Rightarrow> ''skills'' | ResHooks \<Rightarrow> ''hooks'')"

text \<open>
  \<open>loadMonorepoConfig\<close>: the parser of the YAML library is a parameter; \<open>None\<close> stands for
  a text it rejects or reads as null.
\<close>

definition loadMonorepoConfig ::
  "fsnode \<Rightarrow> (string \<Rightarrow> MonorepoConfig option) \<Rightarrow> path \<Rightarrow> MonorepoConfig" where
  "loadMonorepoConfig fs parse agentsRoot =
     (let configPath = join agentsRoot ''config.yaml'' in
      if \<not> pathExists fs configPath then emptyConfig
      else
        (case readText fs configPath of
           None \<Rightarrow> emptyConfig
         | Some content \<Rightarrow> (case parse content of None \<Rightarrow> emptyConfig | Some parsed \<Rightarrow> parsed)))"

definition specificBehavior :: "ExtendsMap \<Rightarrow> ResourceName \<Rightarrow> ExtendBehavior option" where
  "specificBehavior m r =
     (case r of ResAgentsMd \<Rightarrow> ext_AGENTS_md m | ResCommands \<Rightarrow> ext_commands m
      | ResSkills \<Rightarrow> ext_skills m | ResHooks \<Rightarrow> ext_hooks m)"

definition getExtendBehavior :: "MonorepoConfig \<Rightarrow> ResourceName \<Rightarrow> ExtendBehavior" where
  "getExtendBehavior config resource =
     (case cfg_extends config of
        None \<Rightarrow> Inherit
      | Some (ExtendsAll b) \<Rightarrow> (if b then Inherit else Override)
      | Some (ExtendsPer m) \<Rightarrow>
          (case specificBehavior m resource of
             Some specific \<Rightarrow> specific
           | None \<Rightarrow> (case ext_default m of Some d \<Rightarrow> d | None \<Rightarrow> Inherit)))"

definition getIncludeList :: "MonorepoConfig \<Rightarrow> ResourceName \<Rightarrow> string list option" where
  "getIncludeList config resource =
     (case cfg_include config of
        None \<Rightarrow> None
      | Some inc \<Rightarrow>
          (case resource of ResCommands \<Rightarrow> inc_commands inc | ResSkills \<Rightarrow> inc_skills inc
           | ResHooks \<Rightarrow> inc_hooks inc | ResAgentsMd \<Rightarrow> None))"

section \<open>The mapping builder (core/paths.ts, core/mappings.ts)\<close>

datatype Scope = Global | Project
datatype SourceKind = FileKind | DirKind
datatype Client = Claude | Factory | Codex | Cursor | Opencode

record Mapping =
  name :: string
  source :: path
  targets :: "path list"
  kind :: SourceKind

text \<open>What the process reads from its environment: \<open>os.homedir()\<close> and \<open>process.cwd()\<close>.\<close>

record Env =
  os_homedir :: path
  process_cwd :: path

record ResolvedRoots =
  canonicalRoot :: path
  claudeRoot :: path
  factoryRoot :: path
  codexRoot :: path
  cursorRoot :: path
  opencodeRoot :: path
  opencodeConfigRoot :: path
  projectRoot :: path
  homeDir :: path

definition resolveRoots :: "Env \<Rightarrow> Scope \<Rightarrow> path option \<Rightarrow> path option \<Rightarrow> ResolvedRoots" where
  "resolveRoots env scope optProjectRoot optHomeDir =
     (let home = (case optHomeDir of Some h \<Rightarrow> h | None \<Rightarrow> os_homedir env);
          proj = (case optProjectRoot of Some p \<Rightarrow> p | None \<Rightarrow> process_cwd env)
      in if scope = Global then
           \<lparr> canonicalRoot = join home ''.agents'', claudeRoot = join home ''.claude'',
             factoryRoot = join home ''.factory'', codexRoot = join home ''.codex'',
             cursorRoot = join home ''.cursor'', opencodeRoot = join home ''.opencode'',
             opencodeConfigRoot = join (join home ''.config'') ''opencode'',
             projectRoot = proj, homeDir = home \<rparr>
         else
           \<lparr> canonicalRoot = join proj ''.agents'', claudeRoot = join proj ''.claude'',
             factoryRoot = join proj ''.factory'', codexRoot = join proj ''.codex'',
             cursorRoot = join proj ''.cursor'', opencodeRoot = join proj ''.opencode'',
             opencodeConfigRoot = join (join home ''.config'') ''opencode'',
             projectRoot = proj, homeDir = home \<rparr>)"

text \<open>
  \<open>resolveMonorepoRoots\<close>; the fields \<open>chain\<close>, \<open>effectiveRoot\<close> and \<open>mergedDir\<close> that it
  adds are not read by the mapping builder and are left out.
\<close>

definition resolveMonorepoRoots ::
  "Env \<Rightarrow> InheritanceChain \<Rightarrow> path option \<Rightarrow> path option \<Rightarrow> ResolvedRoots" where
  "resolveMonorepoRoots env chain optProjectRoot optHomeDir =
     (let home = (case optHomeDir of Some h \<Rightarrow> h | None \<Rightarrow> os_homedir env);
          effectiveRoot =
            (case current chain of
               Some c \<Rightarrow> c
             | None \<Rightarrow>
                 (case ancestors chain of
                    a # as \<Rightarrow> a
                  | [] \<Rightarrow> (case global chain of Some g \<Rightarrow> g | None \<Rightarrow> join home ''.agents'')));
          proj =
            (case current chain of
               Some c \<Rightarrow> dirname c
             | None \<Rightarrow> (case optProjectRoot of Some p \<Rightarrow> p | None \<Rightarrow> process_cwd env))
      in \<lparr> canonicalRoot = effectiveRoot, claudeRoot = join proj ''.claude'',
           factoryRoot = join proj ''.factory'', codexRoot = join proj ''.codex'',
           cursorRoot = join proj ''.cursor'', opencodeRoot = join proj ''.opencode'',
           opencodeConfigRoot = join (join home ''.config'') ''opencode'',
           projectRoot = proj, homeDir = home \<rparr>)"

definition allClients :: "Client list" where
  "allClients = [Claude, Factory, Codex, Cursor, Opencode]"

text \<open>\<open>clients.has(c) ? p : null\<close>, once the nulls are filtered out.\<close>

definition ifHas :: "Client list \<Rightarrow> Client \<Rightarrow> path \<Rightarrow> path list" where
  "ifHas clients c p = (if c \<in> set clients then [p] else [])"

definition agentTargets :: "ResolvedRoots \<Rightarrow> Client list \<Rightarrow> path list" where
  "agentTargets roots clients =
     ifHas clients Factory (join (factoryRoot roots) ''AGENTS.md'') @
     ifHas clients Codex (join (codexRoot roots) ''AGENTS.md'') @
     ifHas clients Opencode (join (opencodeConfigRoot roots) ''AGENTS.md'')"

definition commandsMapping :: "ResolvedRoots \<Rightarrow> Client list \<Rightarrow> path \<Rightarrow> Mapping" where
  "commandsMapping roots clients src =
     \<lparr> name = ''commands'', source = src,
       targets =
         ifHas clients Claude (join (claudeRoot roots) ''commands'') @
         ifHas clients Factory (join (factoryRoot roots) ''commands'') @
         ifHas clients Codex (join (codexRoot roots) ''prompts'') @
         ifHas clients Opencode (join (opencodeRoot roots) ''commands'') @
         ifHas clients Cursor (join (cursorRoot roots) ''commands''),
       kind = DirKind \<rparr>"

definition hooksMapping :: "ResolvedRoots \<Rightarrow> Client list \<Rightarrow> path \<Rightarrow> Mapping" where
  "hooksMapping roots clients src =
     \<lparr> name = ''hooks'', source = src,
       targets =
         ifHas clients Claude (join (claudeRoot roots) ''hooks'') @
         ifHas clients Factory (join (factoryRoot roots) ''hooks''),
       kind = DirKind \<rparr>"

definition skillsMapping :: "ResolvedRoots \<Rightarrow> Client list \<Rightarrow> path \<Rightarrow> Mapping" where
  "skillsMapping roots clients src =
     \<lparr> name = ''skills'', source = src,
       targets =
         ifHas clients Claude (join (claudeRoot roots) ''skills'') @
         ifHas clients Factory (join (factoryRoot roots) ''skills'') @
         ifHas clients Codex (join (codexRoot roots) ''skills'') @
         ifHas clients Opencode (join (opencodeRoot roots) ''skills'') @
         ifHas clients Cursor (join (cursorRoot roots) ''skills''),
       kind = DirKind \<rparr>"

definition getMappings ::
  "fsnode \<Rightarrow> Env \<Rightarrow> Scope \<Rightarrow> path option \<Rightarrow> path option \<Rightarrow> Client list option \<Rightarrow> Mapping list" where
  "getMappings fs env scope optProjectRoot optHomeDir optClients =
     (let roots = resolveRoots env scope optProjectRoot optHomeDir;
          canonical = canonicalRoot roots;
          claudeOverride = join canonical ''CLAUDE.md'';
          agentsFallback = join canonical ''AGENTS.md'';
          agentsSource = (if pathExists fs claudeOverride then claudeOverride else agentsFallback);
          clients = (case optClients of Some cs \<Rightarrow> cs | None \<Rightarrow> allClients);
          includeAgentFiles = (scope = Global)
      in
        (if includeAgentFiles \<and> Claude \<in> set clients then
           [\<lparr> name = ''claude-md'', source = agentsSource,
              targets = [join (claudeRoot roots) ''CLAUDE.md''], kind = FileKind \<rparr>]
         else []) @
        (if includeAgentFiles \<and> length (agentTargets roots clients) > 0 then
           [\<lparr> name = ''agents-md'', source = agentsFallback,
              targets = agentTargets roots clients, kind = FileKind \<rparr>]
         else []) @
        [commandsMapping roots clients (join canonical ''commands''),
         hooksMapping roots clients (join canonical ''hooks''),
         skillsMapping roots clients (join canonical ''skills'')])"

text \<open>The mappings \<open>getMonorepoMappings\<close> pushes for a resolved instructions file.\<close>

definition instructionsMappings :: "ResolvedRoots \<Rightarrow> Client list \<Rightarrow> path \<Rightarrow> Mapping list" where
  "instructionsMappings roots clients agentsSource =
     (let isClaudeOverride = (basename agentsSource = ''CLAUDE.md'') in
        (if Claude \<in> set clients then
           [\<lparr> name = ''claude-md'', source = agentsSource,
              targets = [join (claudeRoot roots) ''CLAUDE.md''], kind = FileKind \<rparr>]
         else []) @
        (if \<not> isClaudeOverride \<and> length (agentTargets roots clients) > 0 then
           [\<lparr> name = ''agents-md'', source = agentsSource,
              targets = agentTargets roots clients, kind = FileKind \<rparr>]
         else []))"

definition includeFor :: "MonorepoConfig \<Rightarrow> ResourceName \<Rightarrow> string list option" where
  "includeFor config r =
     (if getExtendBehavior config r = Compose then getIncludeList config r else None)"

definition getMonorepoMappings ::
  "fsnode \<Rightarrow> (string \<Rightarrow> MonorepoConfig option) \<Rightarrow> Env \<Rightarrow> InheritanceChain \<Rightarrow> path option \<Rightarrow>
     path option \<Rightarrow> Client list option \<Rightarrow> (fsnode \<times> Mapping list) option" where
  "getMonorepoMappings fs parse env chain optProjectRoot optHomeDir optClients =
     (let roots = resolveMonorepoRoots env chain optProjectRoot optHomeDir;
          clients = (case optClients of Some cs \<Rightarrow> cs | None \<Rightarrow> allClients);
          effectiveChain = getEffectiveChain chain
      in
        if length effectiveChain = 0 then Some (fs, [])
        else
          let firstInChain = hd effectiveChain;
              currentRoot = (case current chain of Some c \<Rightarrow> c | None \<Rightarrow> firstInChain);
              config = loadMonorepoConfig fs parse currentRoot
          in
            case mergeAgentsMd fs effectiveChain currentRoot (getExtendBehavior config ResAgentsMd) of
              None \<Rightarrow> None
            | Some (fs1, agentsSource) \<Rightarrow>
            (case mergeDirectoryChain fs1 effectiveChain currentRoot ''commands''
                    (getExtendBehavior config ResCommands) (includeFor config ResCommands) of
              None \<Rightarrow> None
            | Some (fs2, commandsSource) \<Rightarrow>
            (case mergeDirectoryChain fs2 effectiveChain currentRoot ''hooks''
                    (getExtendBehavior config ResHooks) (includeFor config ResHooks) of
              None \<Rightarrow> None
            | Some (fs3, hooksSource) \<Rightarrow>
            (case mergeDirectoryChain fs3 effectiveChain currentRoot ''skills''
                    (getExtendBehavior config ResSkills) (includeFor config ResSkills) of
              None \<Rightarrow> None
            | Some (fs4, skillsSource) \<Rightarrow>
                Some (fs4,
                  (case agentsSource of None \<Rightarrow> [] | Some src \<Rightarrow> instructionsMappings roots clients src) @
                  (case commandsSource of None \<Rightarrow> [] | Some src \<Rightarrow> [commandsMapping roots clients src]) @
                  (case hooksSource of None \<Rightarrow> [] | Some src \<Rightarrow> [hooksMapping roots clients src]) @
                  (case skillsSource of None \<Rightarrow> [] | Some src \<Rightarrow> [skillsMapping roots clients src]))))))"

section \<open>Link targets (core/status.ts, core/repair.ts)\<close>

text \<open>
  The client target paths, as \<open>lstat\<close> sees a path: nothing, a real file with its content, a
  real directory, or a symbolic link with the text \<open>readlink\<close> returns. A link text is
  absolute or relative, and its segments may hold \<open>.\<close> and \<open>..\<close>.
\<close>

datatype linktext = LinkText bool "string list"

datatype target = Absent | RealFile string | RealDir | Symlink linktext

type_synonym disk = "path \<Rightarrow> target"

text \<open>
  Modelled from the spec: \<open>pathExists\<close> and \<open>ensureDir\<close> of \<open>utils/fs\<close> are not among the
  sources, and whether \<open>pathExists\<close> follows a link is not known. Both are parameters here:
  \<open>pe\<close> answers for a disk and a path, \<open>mk\<close> returns the disk with the directory made, or
  \<open>None\<close> when it throws.
\<close>

type_synonym exists_fn = "disk \<Rightarrow> path \<Rightarrow> bool"
type_synonym mkdir_fn = "disk \<Rightarrow> path \<Rightarrow> disk option"

subsection \<open>Status\<close>

definition resolveLinkTarget :: "disk \<Rightarrow> path \<Rightarrow> path option" where
  "resolveLinkTarget d targetPath =
     (case d targetPath of
        Symlink (LinkText isAbsolute link) \<Rightarrow>
          if \<not> isAbsolute then Some (path_resolve_from (dirname targetPath) link) else Some link
      | _ \<Rightarrow> None)"

datatype TargetStatus = Linked | Missing | Conflict

record LinkStatus =
  ls_name :: string
  ls_source :: path
  ls_targets :: "(path \<times> TargetStatus) list"

text \<open>
  The body of the inner loop of \<open>getLinkStatus\<close> and of \<open>getMonorepoLinkStatus\<close> (the two
  loops are the same text). \<open>lstat\<close> of a path that is not there throws.
\<close>

definition targetStatus :: "exists_fn \<Rightarrow> disk \<Rightarrow> path \<Rightarrow> path \<Rightarrow> TargetStatus option" where
  "targetStatus pe d src t =
     (if \<not> pe d t then Some Missing
      else
        (case d t of
           Absent \<Rightarrow> None
         | Symlink l \<Rightarrow>
             (case resolveLinkTarget d t of
                Some resolved \<Rightarrow>
                  if path_resolve resolved = path_resolve src then Some Linked else Some Conflict
              | None \<Rightarrow> Some Conflict)
         | RealFile c \<Rightarrow> Some Conflict
         | RealDir \<Rightarrow> Some Conflict))"

fun targetStatuses ::
  "exists_fn \<Rightarrow> disk \<Rightarrow> path \<Rightarrow> path list \<Rightarrow> (path \<times> TargetStatus) list option" where
  "targetStatuses pe d src [] = Some []"
| "targetStatuses pe d src (t # ts) =
     (case targetStatus pe d src t of
        None \<Rightarrow> None
      | Some st \<Rightarrow>
          (case targetStatuses pe d src ts of
             None \<Rightarrow> None
           | Some rest \<Rightarrow> Some ((t, st) # rest)))"

fun mappingStatuses :: "exists_fn \<Rightarrow> disk \<Rightarrow> Mapping list \<Rightarrow> LinkStatus list option" where
  "mappingStatuses pe d [] = Some []"
| "mappingStatuses pe d (mapping # mappings) =
     (case targetStatuses pe d (source mapping) (targets mapping) of
        None \<Rightarrow> None
      | Some ts \<Rightarrow>
          (case mappingStatuses pe d mappings of
             None \<Rightarrow> None
           | Some rest \<Rightarrow>
               Some (\<lparr> ls_name = name mapping, ls_source = source mapping, ls_targets = ts \<rparr> # rest)))"

definition getLinkStatus ::
  "exists_fn \<Rightarrow> disk \<Rightarrow> fsnode \<Rightarrow> Env \<Rightarrow> Scope \<Rightarrow> path option \<Rightarrow> path option \<Rightarrow>
     Client list option \<Rightarrow> LinkStatus list option" where
  "getLinkStatus pe d fs env scope optProjectRoot optHomeDir optClients =
     mappingStatuses pe d (getMappings fs env scope optProjectRoot optHomeDir optClients)"

definition getMonorepoLinkStatus ::
  "exists_fn \<Rightarrow> disk \<Rightarrow> fsnode \<Rightarrow> (string \<Rightarrow> MonorepoConfig option) \<Rightarrow> Env \<Rightarrow> InheritanceChain \<Rightarrow>
     path option \<Rightarrow> path option \<Rightarrow> Client list option \<Rightarrow> LinkStatus list option" where
  "getMonorepoLinkStatus pe d fs parse env chain optProjectRoot optHomeDir optClients =
     (case getMonorepoMappings fs parse env chain optProjectRoot optHomeDir optClients of
        None \<Rightarrow> None
      | Some (fs', mappings) \<Rightarrow> mappingStatuses pe d mappings)"

subsection \<open>Repair\<close>

datatype LinkResult = Created | Updated | Skipped | Failed

text \<open>\<open>fs.symlink\<close>: the path must be free and its parent must be there.\<close>

definition symlink :: "disk \<Rightarrow> path \<Rightarrow> path \<Rightarrow> SourceKind \<Rightarrow> disk option" where
  "symlink d src t k =
     (if d t = Absent \<and>
         (case d (dirname t) of Absent \<Rightarrow> False | RealFile c \<Rightarrow> False | _ \<Rightarrow> True)
      then Some (d(t := Symlink (LinkText True src)))
      else None)"

definition unlink :: "disk \<Rightarrow> path \<Rightarrow> disk" where
  "unlink d t = d(t := Absent)"

text \<open>\<open>ensureSymlink\<close>; its \<open>catch\<close> turns every failure into the result \<open>error\<close>.\<close>

definition ensureSymlink ::
  "exists_fn \<Rightarrow> mkdir_fn \<Rightarrow> disk \<Rightarrow> path \<Rightarrow> path \<Rightarrow> SourceKind \<Rightarrow> LinkResult \<times> disk" where
  "ensureSymlink pe mk d src t k =
     (if \<not> pe d src then (Skipped, d)
      else
        let targetExists = pe d t in
        if targetExists then
          (case d t of
             Absent \<Rightarrow> (Failed, d)
           | Symlink (LinkText isAbsolute currentTarget) \<Rightarrow>
               let resolvedCurrent =
                     (if isAbsolute then currentTarget
                      else path_resolve_from (dirname t) currentTarget)
               in
                 if path_resolve resolvedCurrent = path_resolve src then (Skipped, d)
                 else
                   let d1 = unlink d t in
                   (case mk d1 (dirname t) of
                      None \<Rightarrow> (Failed, d1)
                    | Some d2 \<Rightarrow>
                        (case symlink d2 src t k of
                           None \<Rightarrow> (Failed, d2)
                         | Some d3 \<Rightarrow> (Updated, d3)))
           | RealFile c \<Rightarrow> (Skipped, d)
           | RealDir \<Rightarrow> (Skipped, d))
        else
          (case mk d (dirname t) of
             None \<Rightarrow> (Failed, d)
           | Some d1 \<Rightarrow>
               (case symlink d1 src t k of
                  None \<Rightarrow> (Failed, d1)
                | Some d2 \<Rightarrow> (Created, d2))))"

record RepairResult =
  created :: nat
  updated :: nat
  skipped :: nat
  errors :: "string list"

definition showPath :: "path \<Rightarrow> string" where
  "showPath p = concat (map (\<lambda>s. CHR ''/'' # s) p)"

text \<open>The two loops of \<open>repair\<close> over the mappings and their targets, with the counters.\<close>

fun repairTargets ::
  "exists_fn \<Rightarrow> mkdir_fn \<Rightarrow> path \<Rightarrow> SourceKind \<Rightarrow> path list \<Rightarrow> RepairResult \<times> disk \<Rightarrow>
     RepairResult \<times> disk" where
  "repairTargets pe mk src k [] (r, d) = (r, d)"
| "repairTargets pe mk src k (t # ts) (r, d) =
     (case ensureSymlink pe mk d src t k of
        (Created, d') \<Rightarrow> repairTargets pe mk src k ts (r\<lparr>created := created r + 1\<rparr>, d')
      | (Updated, d') \<Rightarrow> repairTargets pe mk src k ts (r\<lparr>updated := updated r + 1\<rparr>, d')
      | (Skipped, d') \<Rightarrow> repairTargets pe mk src k ts (r\<lparr>skipped := skipped r + 1\<rparr>, d')
      | (Failed, d') \<Rightarrow>
          repairTargets pe mk src k ts
            (r\<lparr>errors := errors r @ [''Failed to link '' @ showPath t]\<rparr>, d'))"

fun repairMappings ::
  "exists_fn \<Rightarrow> mkdir_fn \<Rightarrow> Mapping list \<Rightarrow> RepairResult \<times> disk \<Rightarrow> RepairResult \<times> disk" where
  "repairMappings pe mk [] rd = rd"
| "repairMappings pe mk (mapping # mappings) rd =
     repairMappings pe mk mappings
       (repairTargets pe mk (source mapping) (kind mapping) (targets mapping) rd)"

text \<open>\<open>repair\<close> from its mappings on: the scope and the clients are detected before.\<close>

definition repair :: "exists_fn \<Rightarrow> mkdir_fn \<Rightarrow> Mapping list \<Rightarrow> disk \<Rightarrow> RepairResult \<times> disk" where
  "repair pe mk mappings d =
     repairMappings pe mk mappings (\<lparr> created = 0, updated = 0, skipped = 0, errors = [] \<rparr>, d)"

section \<open>The watch daemon (core/watch.ts)\<close>

definition WATCHED_PATTERNS :: "string list" where
  "WATCHED_PATTERNS = [''AGENTS.md'', ''CLAUDE.md'', ''config.yaml'', ''commands'', ''hooks'', ''skills'']"

definition shouldWatch :: "string \<Rightarrow> bool" where
  "shouldWatch filename =
     (filename \<noteq> [] \<and>
      list_ex (\<lambda>pattern. filename = pattern \<or> prefix (pattern @ ''/'') filename) WATCHED_PATTERNS)"

text \<open>
  The daemon on a logical clock of milliseconds. \<open>timer\<close> is the one pending timeout of the
  debounce closure, with its deadline and the arguments its callback was built with;
  \<open>rebuilds\<close> counts the calls of \<open>regenerateMergedContent\<close>. The three flags are those of
  \<open>WatchState\<close>.
\<close>

record Daemon =
  isProcessing :: bool
  pendingRebuild :: bool
  aborted :: bool
  timer :: "(nat \<times> path \<times> string option) option"
  rebuilds :: nat

definition idle :: Daemon where
  "idle = \<lparr> isProcessing = False, pendingRebuild = False, aborted = False, timer = None,
            rebuilds = 0 \<rparr>"

text \<open>
  The closure \<open>createDebounce\<close> returns: \<open>clearTimeout\<close> drops the pending timeout,
  \<open>setTimeout\<close> sets the new one, \<open>delay\<close> after \<open>now\<close>.
\<close>

definition debounce :: "nat \<Rightarrow> nat \<Rightarrow> path \<times> string option \<Rightarrow> Daemon \<Rightarrow> Daemon" where
  "debounce delay now fn s = s\<lparr>timer := Some (now + delay, fn)\<rparr>"

text \<open>\<open>handleChange\<close> up to its first \<open>await\<close>: the rebuild starts, or is queued.\<close>

definition handleChange :: "path \<Rightarrow> string option \<Rightarrow> Daemon \<Rightarrow> Daemon" where
  "handleChange agentsPath filename s =
     (if aborted s then s
      else
        (case filename of
           None \<Rightarrow> s
         | Some f \<Rightarrow>
             if \<not> shouldWatch f then s
             else if isProcessing s then s\<lparr>pendingRebuild := True\<rparr>
             else s\<lparr>isProcessing := True, rebuilds := rebuilds s + 1\<rparr>))"

text \<open>The \<open>finally\<close> of \<open>handleChange\<close>, when the rebuild in flight has ended.\<close>

definition rebuildDone :: "Daemon \<Rightarrow> Daemon" where
  "rebuildDone s =
     (if \<not> isProcessing s then s
      else
        let s1 = s\<lparr>isProcessing := False\<rparr> in
        if pendingRebuild s1 \<and> \<not> aborted s1
        then s1\<lparr>pendingRebuild := False, rebuilds := rebuilds s1 + 1\<rparr>
        else s1)"

text \<open>The event loop runs the callback of a timeout whose deadline has come.\<close>

definition fireDue :: "nat \<Rightarrow> Daemon \<Rightarrow> Daemon" where
  "fireDue now s =
     (case timer s of
        None \<Rightarrow> s
      | Some (deadline, agentsPath, filename) \<Rightarrow>
          if deadline \<le> now then handleChange agentsPath filename (s\<lparr>timer := None\<rparr>) else s)"

datatype WatchEvent =
  FsChange nat path "string option"
| RebuildEnds nat

fun step :: "nat \<Rightarrow> Daemon \<Rightarrow> WatchEvent \<Rightarrow> Daemon" where
  "step delay s (FsChange now agentsPath filename) =
     debounce delay now (agentsPath, filename) (fireDue now s)"
| "step delay s (RebuildEnds now) = rebuildDone (fireDue now s)"

text \<open>
  \<open>startWatch\<close> builds its debounce with a delay of 100 ms. After the last event the clock
  runs on: the pending timeout fires and the rebuild in flight ends.
\<close>

definition DEBOUNCE_DELAY :: nat where
  "DEBOUNCE_DELAY = 100"

definition settle :: "Daemon \<Rightarrow> Daemon" where
  "settle s =
     rebuildDone (case timer s of None \<Rightarrow> s | Some (deadline, agentsPath, filename) \<Rightarrow> fireDue deadline s)"

definition watchRun :: "WatchEvent list \<Rightarrow> Daemon" where
  "watchRun events = settle (foldl (step DEBOUNCE_DELAY) idle events)"

section \<open>Observations on trees\<close>

text \<open>
  What a path shows from outside: nothing, a file with its content, or a directory.
  Two trees are compatible when no path is a file in one and a directory in the other.
\<close>

datatype kind = IsFile string | IsDir

definition kindAt :: "fsnode \<Rightarrow> path \<Rightarrow> kind option" where
  "kindAt n p =
     (case lookup n p of None \<Rightarrow> None | Some (File c) \<Rightarrow> Some (IsFile c) | Some (Dir es) \<Rightarrow> Some IsDir)"

fun compatible :: "fsnode \<Rightarrow> fsnode \<Rightarrow> bool" where
  "compatible (File a) (File b) = True"
| "compatible (Dir es) (Dir ds) =
     (\<forall>e \<in> set es. case map_of ds (fst e) of None \<Rightarrow> True | Some y \<Rightarrow> compatible (snd e) y)"
| "compatible (File a) (Dir ds) = False"
| "compatible (Dir es) (File b) = False"

text \<open>
  The change of one sub-tree: the directories on the way to \<open>p\<close> are made as \<open>mkdir\<close> does,
  and \<open>f\<close> rewrites what is at \<open>p\<close>, an empty directory when nothing was.
\<close>

definition orEmpty :: "fsnode option \<Rightarrow> fsnode" where
  "orEmpty x = (case x of None \<Rightarrow> Dir [] | Some n \<Rightarrow> n)"

fun modifyAt :: "path \<Rightarrow> (fsnode \<Rightarrow> fsnode option) \<Rightarrow> fsnode \<Rightarrow> fsnode option" where
  "modifyAt [] f n = f n"
| "modifyAt (s # p) f (File c) = None"
| "modifyAt (s # p) f (Dir es) =
     (case modifyAt p f (orEmpty (map_of es s)) of
        None \<Rightarrow> None
      | Some n' \<Rightarrow> Some (Dir (AList.update s n' es)))"

definition thenDo :: "(fsnode \<Rightarrow> fsnode option) \<Rightarrow> (fsnode \<Rightarrow> fsnode option) \<Rightarrow> fsnode \<Rightarrow> fsnode option" where
  "thenDo f g n = (case f n of None \<Rightarrow> None | Some m \<Rightarrow> g m)"

definition clash :: "kind option \<Rightarrow> kind option \<Rightarrow> bool" where
  "clash a b =
     (case (a, b) of
        (Some (IsFile c), Some IsDir) \<Rightarrow> True
      | (Some IsDir, Some (IsFile c)) \<Rightarrow> True
      | _ \<Rightarrow> False)"

text \<open>The first answer in a list of answers: the nearest node that has the path.\<close>

fun firstSome :: "'a option list \<Rightarrow> 'a option" where
  "firstSome [] = None"
| "firstSome (None # xs) = firstSome xs"
| "firstSome (Some x # xs) = Some x"


text \<open>What a path shows after a copy: the source's answer where it has one, else the old one.\<close>

definition over :: "kind option \<Rightarrow> kind option \<Rightarrow> kind option" where
  "over src dst = (case src of None \<Rightarrow> dst | Some k \<Rightarrow> Some k)"

text \<open>\<open>res\<close> is \<open>dst\<close> with \<open>src\<close> copied over it, at every path below the root.\<close>

definition copiedOver :: "fsnode \<Rightarrow> fsnode \<Rightarrow> fsnode \<Rightarrow> bool" where
  "copiedOver src dst res = (\<forall>q. q \<noteq> [] \<longrightarrow> kindAt res q = over (kindAt src q) (kindAt dst q))"

text \<open>
  The copy of the directory \<open>es\<close> into any directory it does not clash with succeeds and
  leaves \<open>es\<close> copied over that directory.
\<close>

definition copiesWell :: "(string \<times> fsnode) list \<Rightarrow> bool" where
  "copiesWell es =
     (\<forall>dd. (\<forall>q. \<not> clash (kindAt (Dir es) q) (kindAt (Dir dd) q)) \<longrightarrow>
        (\<exists>r. copyTree es [] (Dir dd) = Some (Dir r) \<and> copiedOver (Dir es) (Dir dd) (Dir r)))"


section \<open>Example disks\<close>

text \<open>
  A disk for \<open>getLinkStatus\<close> in the global scope with the home directory \<open>/h\<close>: the
  target of the claude client for the instructions file is an absolute link to
  \<open>/h/.agents/AGENTS.md\<close> and the target of the factory client is a real file with the
  content of that source; for the commands, the target of the claude client is a link to
  another place and the target of the factory client is a relative link to the source.
  The other targets are not there.
\<close>

definition status_disk :: disk where
  "status_disk p =
     (if p = [''h'', ''.claude'', ''CLAUDE.md'']
      then Symlink (LinkText True [''h'', ''.agents'', ''AGENTS.md''])
      else if p = [''h'', ''.factory'', ''AGENTS.md''] then RealFile ''same''
      else if p = [''h'', ''.claude'', ''commands''] then Symlink (LinkText True [''h'', ''old''])
      else if p = [''h'', ''.factory'', ''commands'']
      then Symlink (LinkText False [''..'', ''.agents'', ''commands''])
      else if p = [''h'', ''.agents'', ''AGENTS.md''] then RealFile ''same''
      else if p = [''h''] \<or> p = [''h'', ''.claude''] \<or> p = [''h'', ''.factory''] \<or>
              p = [''h'', ''.agents''] then RealDir
      else Absent)"

text \<open>A disk on which the two targets of a mapping are links to its source already.\<close>

definition linked_disk :: disk where
  "linked_disk p =
     (if p = [''r'', ''commands''] then RealDir
      else if p = [''c'', ''commands''] then Symlink (LinkText True [''r'', ''commands''])
      else if p = [''x'', ''prompts''] then Symlink (LinkText False [''..'', ''r'', ''.'', ''commands''])
      else if p = [''c''] \<or> p = [''r''] \<or> p = [''x''] then RealDir
      else Absent)"

definition linked_mapping :: Mapping where
  "linked_mapping =
     \<lparr> name = ''commands'', source = [''r'', ''commands''],
       targets = [[''c'', ''commands''], [''x'', ''prompts'']], kind = DirKind \<rparr>"

section \<open>Example trees\<close>

text \<open>
  A tree with a marker at the filesystem root, in \<open>/home\<close> and in \<open>/home/user/proj\<close>, and
  none in \<open>/home/user\<close>.
\<close>

definition marker_tree :: fsnode where
  "marker_tree =
     Dir [(''.agents'', Dir []),
          (''home'', Dir [(''.agents'', Dir []),
             (''user'', Dir [(''proj'', Dir [(''.agents'', Dir [])])])])]"

text \<open>
  A package \<open>/repo/pkg\<close> below a repository \<open>/repo\<close>, each with a canonical root. In the
  first tree both roots have the skill \<open>tool\<close>, with different files; in the second \<open>tool\<close>
  is a directory in the far root and a file in the near one; in the third the near root
  still holds a merge directory with a file \<open>old.md\<close> that no node has.
\<close>

definition near_root :: path where
  "near_root = [''repo'', ''pkg'', ''.agents'']"

definition far_root :: path where
  "far_root = [''repo'', ''.agents'']"

definition nested_tree :: fsnode where
  "nested_tree =
     Dir [(''repo'', Dir [
       (''.agents'', Dir [(''skills'', Dir [
          (''tool'', Dir [(''a.md'', File ''far a''), (''b.md'', File ''far b'')]),
          (''top.md'', File ''far top'')])]),
       (''pkg'', Dir [(''.agents'', Dir [(''skills'', Dir [
          (''tool'', Dir [(''a.md'', File ''near a'')])])])])])]"

definition nested_merged :: fsnode where
  "nested_merged =
     Dir [(''repo'', Dir [
       (''.agents'', Dir [(''skills'', Dir [
          (''tool'', Dir [(''a.md'', File ''far a''), (''b.md'', File ''far b'')]),
          (''top.md'', File ''far top'')])]),
       (''pkg'', Dir [(''.agents'', Dir [
          (''skills'', Dir [(''tool'', Dir [(''a.md'', File ''near a'')])]),
          (''merged'', Dir [(''skills'', Dir [
             (''top.md'', File ''far top''),
             (''tool'', Dir [(''a.md'', File ''near a''), (''b.md'', File ''far b'')])])])])])])]"

text \<open>
  The first tree once more, after a resolution that left \<open>merged/commands\<close> in the near
  root.
\<close>

definition second_tree :: fsnode where
  "second_tree =
     Dir [(''repo'', Dir [
       (''.agents'', Dir [(''skills'', Dir [
          (''tool'', Dir [(''a.md'', File ''far a''), (''b.md'', File ''far b'')]),
          (''top.md'', File ''far top'')])]),
       (''pkg'', Dir [(''.agents'', Dir [
          (''skills'', Dir [(''tool'', Dir [(''a.md'', File ''near a'')])]),
          (''merged'', Dir [(''commands'', Dir [(''c.md'', File ''c'')])])])])])]"

definition clash_tree :: fsnode where
  "clash_tree =
     Dir [(''repo'', Dir [
       (''.agents'', Dir [(''skills'', Dir [
          (''tool'', Dir [(''a.md'', File ''far a'')])])]),
       (''pkg'', Dir [(''.agents'', Dir [(''skills'', Dir [
          (''tool'', File ''near tool'')])])])])]"

definition stale_tree :: fsnode where
  "stale_tree =
     Dir [(''repo'', Dir [
       (''.agents'', Dir [(''skills'', Dir [(''far.md'', File ''far'')])]),
       (''pkg'', Dir [(''.agents'', Dir [
          (''skills'', Dir [(''near.md'', File ''near'')]),
          (''merged'', Dir [(''skills'', Dir [(''old.md'', File ''old'')])])])])])]"

definition stale_merged :: fsnode where
  "stale_merged =
     Dir [(''repo'', Dir [
       (''.agents'', Dir [(''skills'', Dir [(''far.md'', File ''far'')])]),
       (''pkg'', Dir [(''.agents'', Dir [
          (''skills'', Dir [(''near.md'', File ''near'')]),
          (''merged'', Dir [(''skills'', Dir [
             (''old.md'', File ''old''), (''far.md'', File ''far''),
             (''near.md'', File ''near'')])])])])])]"

text \<open>
  The configuration \<open>extends: { commands: compose, default: inherit }\<close> with
  \<open>include: { commands: [build.md] }\<close>, as the YAML parser returns it, and the tree of the
  scenario: the far root has the commands \<open>build.md\<close> and \<open>deploy.md\<close>, the near root has
  its \<open>config.yaml\<close> and the command \<open>local.md\<close>.
\<close>

definition compose_config :: MonorepoConfig where
  "compose_config =
     \<lparr> cfg_extends = Some (ExtendsPer
         \<lparr> ext_AGENTS_md = None, ext_commands = Some Compose, ext_skills = None,
           ext_hooks = None, ext_default = Some Inherit \<rparr>),
       cfg_include = Some \<lparr> inc_commands = Some [''build.md''], inc_skills = None, inc_hooks = None \<rparr>,
       cfg_exclude = None \<rparr>"

definition compose_tree :: "string \<Rightarrow> string \<Rightarrow> string \<Rightarrow> string \<Rightarrow> fsnode" where
  "compose_tree yaml build deploy local =
     Dir [(''repo'', Dir [
       (''.agents'', Dir [(''commands'', Dir [
          (''build.md'', File build), (''deploy.md'', File deploy)])]),
       (''pkg'', Dir [(''.agents'', Dir [
          (''config.yaml'', File yaml),
          (''commands'', Dir [(''local.md'', File local)])])])])]"

definition compose_chain :: InheritanceChain where
  "compose_chain = \<lparr> global = None, ancestors = [far_root], current = Some near_root \<rparr>"

text \<open>
  The configuration \<open>extends: { commands: extend }\<close>, and a tree in which both roots have
  commands.
\<close>

definition extend_config :: MonorepoConfig where
  "extend_config =
     \<lparr> cfg_extends = Some (ExtendsPer
         \<lparr> ext_AGENTS_md = None, ext_commands = Some Extend, ext_skills = None,
           ext_hooks = None, ext_default = None \<rparr>),
       cfg_include = None, cfg_exclude = None \<rparr>"

definition commands_tree :: fsnode where
  "commands_tree =
     Dir [(''repo'', Dir [
       (''.agents'', Dir [(''commands'', Dir [
          (''shared.md'', File ''shared''), (''gone.md'', File ''gone'')])]),
       (''pkg'', Dir [(''.agents'', Dir [
          (''config.yaml'', File ''extends: { commands: extend }''),
          (''commands'', Dir [(''local.md'', File ''local'')])])])])]"

definition test_env :: Env where
  "test_env = \<lparr> os_homedir = [''home''], process_cwd = [''repo'', ''pkg''] \<rparr>"

section \<open>Theorems\<close>

lemma trim_ws_only: "\<forall>c \<in> set w. is_ws c \<Longrightarrow> trim w = []"
proof -
  assume "\<forall>c \<in> set w. is_ws c"
  then have e: "dropWhile is_ws w = []" by simp
  show ?thesis unfolding trim_def trimStart_def trimEnd_def e by simp
qed

lemma trim_not_ws: "x \<in> set s \<Longrightarrow> \<not> is_ws x \<Longrightarrow> trim s \<noteq> []"
proof -
  assume x: "x \<in> set s" "\<not> is_ws x"
  then have n: "dropWhile is_ws s \<noteq> []" by (auto simp: dropWhile_eq_Nil_conv)
  then have "\<not> is_ws (hd (dropWhile is_ws s))" by (rule hd_dropWhile)
  moreover from n have "hd (dropWhile is_ws s) \<in> set (rev (dropWhile is_ws s))" by simp
  ultimately have "dropWhile is_ws (rev (dropWhile is_ws s)) \<noteq> []"
    unfolding dropWhile_eq_Nil_conv by blast
  then show ?thesis by (simp add: trim_def trimStart_def trimEnd_def)
qed

lemma trimEnd_tail:
  assumes "a \<noteq> []" and "\<not> is_ws (last a)" and "\<forall>c \<in> set t. is_ws c"
  shows "trimEnd (a @ t) = a"
proof -
  have "dropWhile is_ws (rev t @ rev a) = dropWhile is_ws (rev a)"
    using assms(3) by (intro dropWhile_append2) auto
  also have "\<dots> = rev a"
  proof (cases "rev a")
    case Nil
    with assms(1) show ?thesis by simp
  next
    case (Cons x xs)
    then have "hd (rev a) = x" by simp
    with assms(1) have "x = last a" by (simp add: hd_rev)
    with assms(2) have "dropWhile is_ws (x # xs) = x # xs" by simp
    then show ?thesis unfolding Cons .
  qed
  finally show ?thesis by (simp add: trimEnd_def)
qed

lemma trimStart_head:
  assumes "c \<noteq> []" and "\<not> is_ws (hd c)" and "\<forall>x \<in> set l. is_ws x"
  shows "trimStart (l @ c) = c"
proof -
  have "dropWhile is_ws (l @ c) = dropWhile is_ws c"
    using assms(3) by (intro dropWhile_append2) auto
  also have "\<dots> = c" using assms(1,2) by (cases c) simp_all
  finally show ?thesis by (simp add: trimStart_def)
qed

lemma mergeMarkdownChain_three:
  assumes "lookup fs p1 = Some (File (a @ t))"
    and "lookup fs p2 = None \<or> (\<exists>w. lookup fs p2 = Some (File w) \<and> (\<forall>x \<in> set w. is_ws x))"
    and "lookup fs p3 = Some (File (l @ c))"
    and "a \<noteq> []" and "\<not> is_ws (last a)" and "\<forall>x \<in> set t. is_ws x"
    and "c \<noteq> []" and "\<not> is_ws (hd c)" and "\<forall>x \<in> set l. is_ws x"
  shows "mergeMarkdownChain fs [p1, p2, p3] = Some (a @ SEPARATOR @ c)"
proof -
  have na: "trim (a @ t) \<noteq> []"
    using trim_not_ws[of "last a" "a @ t"] assms(4,5) by simp
  have nc: "trim (l @ c) \<noteq> []"
    using trim_not_ws[of "hd c" "l @ c"] assms(7,8) by simp
  have step1: "mergeMarkdownLoop fs [p1, p2, p3] [] = mergeMarkdownLoop fs [p2, p3] (a @ t)"
    using assms(1) na by (simp add: pathExists_def readText_def)
  have step2: "mergeMarkdownLoop fs [p2, p3] (a @ t) = mergeMarkdownLoop fs [p3] (a @ t)"
  proof (cases "lookup fs p2")
    case None
    then show ?thesis by (simp add: pathExists_def)
  next
    case (Some n)
    with assms(2) obtain w where w: "lookup fs p2 = Some (File w)" "\<forall>x \<in> set w. is_ws x"
      by auto
    from w(2) have "trim w = []" by (rule trim_ws_only)
    with w(1) show ?thesis by (simp add: pathExists_def readText_def)
  qed
  have step3: "mergeMarkdownLoop fs [p3] (a @ t) = Some (a @ SEPARATOR @ c)"
    using assms(3,4) nc trimEnd_tail[OF assms(4,5,6)] trimStart_head[OF assms(7,8,9)]
    by (simp add: pathExists_def readText_def)
  show ?thesis
    unfolding mergeMarkdownChain_def step1 step2 step3 ..
qed

text \<open>
  C9. \<open>mergeMarkdownChain\<close> over three files, of which the second holds only white space
  or is not there. When the first holds \<open># A\<close> and the third \<open># C\<close>, the result is \<open># A\<close>,
  two line feeds, three dashes, two line feeds and \<open># C\<close>, and nothing else: the second
  file is skipped. In general, when the first holds a text \<open>a\<close> that ends with a visible
  character, followed by white space \<open>t\<close>, and the third holds white space \<open>l\<close> followed by
  a text \<open>c\<close> that starts with a visible character, the result is \<open>a\<close>, the separator and
  \<open>c\<close>: the join drops \<open>t\<close> and \<open>l\<close>, and nothing of \<open>a\<close> and \<open>c\<close>. White space is written
  out as the characters TAB, LF, VT, FF, CR, space and no-break space.
\<close>

theorem mergeMarkdownChain_skips_blank:
  assumes "lookup fs p2 = None \<or>
           (\<exists>w. lookup fs p2 = Some (File w) \<and>
                set w \<subseteq> {CHR 0x09, CHR 0x0A, CHR 0x0B, CHR 0x0C, CHR 0x0D, CHR 0x20, CHR 0xA0})"
  shows "(lookup fs p1 = Some (File ''# A'') \<and> lookup fs p3 = Some (File ''# C'') \<longrightarrow>
            mergeMarkdownChain fs [p1, p2, p3] =
              Some (''# A'' @ [CHR 0x0A, CHR 0x0A] @ ''---'' @ [CHR 0x0A, CHR 0x0A] @ ''# C'')) \<and>
         (lookup fs p1 = Some (File (a @ t)) \<and> lookup fs p3 = Some (File (l @ c)) \<and>
          a \<noteq> [] \<and> c \<noteq> [] \<and>
          last a \<notin> {CHR 0x09, CHR 0x0A, CHR 0x0B, CHR 0x0C, CHR 0x0D, CHR 0x20, CHR 0xA0} \<and>
          hd c \<notin> {CHR 0x09, CHR 0x0A, CHR 0x0B, CHR 0x0C, CHR 0x0D, CHR 0x20, CHR 0xA0} \<and>
          set t \<subseteq> {CHR 0x09, CHR 0x0A, CHR 0x0B, CHR 0x0C, CHR 0x0D, CHR 0x20, CHR 0xA0} \<and>
          set l \<subseteq> {CHR 0x09, CHR 0x0A, CHR 0x0B, CHR 0x0C, CHR 0x0D, CHR 0x20, CHR 0xA0} \<longrightarrow>
            mergeMarkdownChain fs [p1, p2, p3] =
              Some (a @ [CHR 0x0A, CHR 0x0A] @ ''---'' @ [CHR 0x0A, CHR 0x0A] @ c))"
proof (intro conjI impI)
  let ?ws = "{CHR 0x09, CHR 0x0A, CHR 0x0B, CHR 0x0C, CHR 0x0D, CHR 0x20, CHR 0xA0}"
  have ws: "is_ws x \<longleftrightarrow> x \<in> ?ws" for x
    by (simp add: is_ws_def)
  have sub: "\<forall>x \<in> set w. is_ws x" if "set w \<subseteq> ?ws" for w
  proof
    fix x assume "x \<in> set w"
    with that have "x \<in> ?ws" by (rule subsetD)
    then show "is_ws x" unfolding ws .
  qed
  from assms have p2: "lookup fs p2 = None \<or>
      (\<exists>w. lookup fs p2 = Some (File w) \<and> (\<forall>x \<in> set w. is_ws x))"
  proof (elim disjE exE conjE)
    assume "lookup fs p2 = None"
    then show ?thesis by (rule disjI1)
  next
    fix w assume 1: "lookup fs p2 = Some (File w)" and 2: "set w \<subseteq> ?ws"
    from 1 sub[OF 2] show ?thesis by (intro disjI2 exI[of _ w] conjI)
  qed
  have sep: "SEPARATOR = [CHR 0x0A, CHR 0x0A] @ ''---'' @ [CHR 0x0A, CHR 0x0A]"
    by (simp add: SEPARATOR_def)
  {
    assume h: "lookup fs p1 = Some (File ''# A'') \<and> lookup fs p3 = Some (File ''# C'')"
    then have 1: "lookup fs p1 = Some (File (''# A'' @ []))"
      and 3: "lookup fs p3 = Some (File ([] @ ''# C''))" by simp_all
    have a: "''# A'' \<noteq> []" "\<not> is_ws (last ''# A'')" "\<forall>x \<in> set []. is_ws x"
      by (simp_all add: is_ws_def)
    have c: "''# C'' \<noteq> []" "\<not> is_ws (hd ''# C'')"
      by (simp_all add: is_ws_def)
    from mergeMarkdownChain_three[OF 1 p2 3 a c a(3)]
    show "mergeMarkdownChain fs [p1, p2, p3] =
              Some (''# A'' @ [CHR 0x0A, CHR 0x0A] @ ''---'' @ [CHR 0x0A, CHR 0x0A] @ ''# C'')"
      by (simp add: sep)
  }
  {
    assume h: "lookup fs p1 = Some (File (a @ t)) \<and> lookup fs p3 = Some (File (l @ c)) \<and>
          a \<noteq> [] \<and> c \<noteq> [] \<and> last a \<notin> ?ws \<and> hd c \<notin> ?ws \<and> set t \<subseteq> ?ws \<and> set l \<subseteq> ?ws"
    note 1 = h[THEN conjunct1]
    note h2 = h[THEN conjunct2]
    note 3 = h2[THEN conjunct1]
    note h3 = h2[THEN conjunct2]
    note na = h3[THEN conjunct1]
    note h4 = h3[THEN conjunct2]
    note nc = h4[THEN conjunct1]
    note h5 = h4[THEN conjunct2]
    note la = h5[THEN conjunct1]
    note h6 = h5[THEN conjunct2]
    note hc = h6[THEN conjunct1]
    note h7 = h6[THEN conjunct2]
    note st = h7[THEN conjunct1]
    note sl = h7[THEN conjunct2]
    from la have 5: "\<not> is_ws (last a)" unfolding ws .
    from hc have 6: "\<not> is_ws (hd c)" unfolding ws .
    from mergeMarkdownChain_three[OF 1 p2 3 na 5 sub[OF st] nc 6 sub[OF sl]]
    show "mergeMarkdownChain fs [p1, p2, p3] =
              Some (a @ [CHR 0x0A, CHR 0x0A] @ ''---'' @ [CHR 0x0A, CHR 0x0A] @ c)"
      by (simp add: sep)
  }
qed

theorem mergeMarkdownChain_skips_blank_witness:
  "mergeMarkdownChain
     (Dir [(''a.md'', File ''# A''), (''b.md'', File [CHR 0x20, CHR 0x0A, CHR 0x09]),
           (''c.md'', File ''# C'')])
     [[''a.md''], [''b.md''], [''c.md'']] =
   Some (''# A'' @ [CHR 0x0A, CHR 0x0A] @ ''---'' @ [CHR 0x0A, CHR 0x0A] @ ''# C'') \<and>
   mergeMarkdownChain
     (Dir [(''a.md'', File (''# A'' @ [CHR 0x20, CHR 0x0A])),
           (''c.md'', File ([CHR 0x0A, CHR 0x09] @ ''# C''))])
     [[''a.md''], [''b.md''], [''c.md'']] =
   Some (''# A'' @ [CHR 0x0A, CHR 0x0A] @ ''---'' @ [CHR 0x0A, CHR 0x0A] @ ''# C'')"
proof -
  let ?f1 = "Dir [(''a.md'', File ''# A''), (''b.md'', File [CHR 0x20, CHR 0x0A, CHR 0x09]),
           (''c.md'', File ''# C'')]"
  let ?f2 = "Dir [(''a.md'', File (''# A'' @ [CHR 0x20, CHR 0x0A])),
           (''c.md'', File ([CHR 0x0A, CHR 0x09] @ ''# C''))]"
  have h1: "lookup ?f1 [''b.md''] = None \<or>
           (\<exists>w. lookup ?f1 [''b.md''] = Some (File w) \<and>
                set w \<subseteq> {CHR 0x09, CHR 0x0A, CHR 0x0B, CHR 0x0C, CHR 0x0D, CHR 0x20, CHR 0xA0})"
    by simp
  have h2: "lookup ?f2 [''b.md''] = None \<or>
           (\<exists>w. lookup ?f2 [''b.md''] = Some (File w) \<and>
                set w \<subseteq> {CHR 0x09, CHR 0x0A, CHR 0x0B, CHR 0x0C, CHR 0x0D, CHR 0x20, CHR 0xA0})"
    by simp
  have a: "mergeMarkdownChain ?f1 [[''a.md''], [''b.md''], [''c.md'']] =
      Some (''# A'' @ [CHR 0x0A, CHR 0x0A] @ ''---'' @ [CHR 0x0A, CHR 0x0A] @ ''# C'')"
    using mergeMarkdownChain_skips_blank[OF h1, of "[''a.md'']" "[''c.md'']", THEN conjunct1]
    by simp
  have b: "mergeMarkdownChain ?f2 [[''a.md''], [''b.md''], [''c.md'']] =
      Some (''# A'' @ [CHR 0x0A, CHR 0x0A] @ ''---'' @ [CHR 0x0A, CHR 0x0A] @ ''# C'')"
    using mergeMarkdownChain_skips_blank[OF h2, of "[''a.md'']" "[''c.md'']" "''# A''"
        "[CHR 0x20, CHR 0x0A]" "[CHR 0x0A, CHR 0x09]" "''# C''", THEN conjunct2]
    by simp
  from a b show ?thesis by blast
qed

subsection \<open>Chain detection\<close>

lemma prefix_butlast_neq: "prefix h c \<Longrightarrow> h \<noteq> c \<Longrightarrow> prefix h (butlast c)"
  by (metis append_butlast_last_id butlast.simps(1) prefix_snoc)

lemma walkUp_inv:
  assumes "prefix home c" and "\<forall>m \<in> set acc. prefix home (dirname m)"
  shows "\<forall>m \<in> set (walkUp fs (pathString home) c acc). prefix home (dirname m)"
  using assms
proof (induction fs "pathString home" c acc rule: walkUp.induct)
  case (1 fs currentDir agentsFolders)
  let ?found = "if pathExists fs (join currentDir ''.agents'')
                then agentsFolders @ [join currentDir ''.agents''] else agentsFolders"
  let ?stop = "dirname currentDir = currentDir \<or> pathString (dirname currentDir) = pathString home \<or>
               pathString currentDir = pathString home"
  have f: "\<forall>m \<in> set ?found. prefix home (dirname m)"
    using 1(2,3) by (auto simp: join_def dirname_def)
  show ?case
  proof (cases ?stop)
    case True
    then show ?thesis using f by (subst walkUp.simps) (simp add: Let_def)
  next
    case False
    then have "currentDir \<noteq> home" by auto
    with 1(2) have p: "prefix home (dirname currentDir)"
      by (auto simp: dirname_def intro: prefix_butlast_neq)
    have "\<forall>m \<in> set (walkUp fs (pathString home) (dirname currentDir) ?found). prefix home (dirname m)"
      using 1(1)[OF refl refl refl False p f] .
    then show ?thesis using False by (subst walkUp.simps) (simp add: Let_def)
  qed
qed

lemma chain_members:
  "set (case current (detectMonorepoChain fs cwd home startDir) of None \<Rightarrow> [] | Some c \<Rightarrow> [c])
     \<union> set (ancestors (detectMonorepoChain fs cwd home startDir))
   = set (walkUp fs home startDir [])"
  by (cases "walkUp fs home startDir []") (simp_all add: detectMonorepoChain_def Let_def)

lemma splitPath_not_Nil [simp]: "splitPath s \<noteq> []"
  by (induction s) (auto split: list.splits)

lemma splitPath_append:
  "CHR ''/'' \<notin> set s \<Longrightarrow> splitPath (s @ r) = (s @ hd (splitPath r)) # tl (splitPath r)"
  by (induction s) (auto split: list.splits)

lemma splitPath_segments:
  "\<forall>s \<in> set p. CHR ''/'' \<notin> set s \<Longrightarrow>
   splitPath (concat (map (\<lambda>s. CHR ''/'' # s) p)) = [] # p"
  by (induction p) (simp_all add: splitPath_append)

lemma foldl_normStep_normalised:
  "normalised p \<Longrightarrow> foldl normStep acc p = acc @ p"
  by (induction p arbitrary: acc) (simp_all add: normalised_def normStep_def)

lemma resolveString_pathString:
  assumes "normalised p"
  shows "resolveString cwd (pathString p) = p"
proof (cases "p = []")
  case True
  then show ?thesis
    by (simp add: resolveString_def pathString_def isAbsoluteString_def normStep_def)
next
  case False
  then obtain s r where p: "p = s # r" by (cases p) auto
  from assms have "\<forall>s \<in> set p. CHR ''/'' \<notin> set s" by (simp add: normalised_def)
  then have sp: "splitPath (concat (map (\<lambda>s. CHR ''/'' # s) p)) = [] # p"
    by (rule splitPath_segments)
  have ab: "isAbsoluteString (pathString p)"
    by (simp add: isAbsoluteString_def pathString_def p)
  have "foldl normStep [] ([] # p) = foldl normStep [] p"
    by (simp add: normStep_def)
  also have "\<dots> = p" using foldl_normStep_normalised[OF assms, of "[]"] by simp
  finally show ?thesis
    using False sp ab unfolding resolveString_def pathString_def by simp
qed

text \<open>
  C5, as the code has it. Let \<open>homeDir\<close> be written as the normalised absolute string of a
  directory \<open>home\<close>, and let the walk start at \<open>home\<close> or below it. Then every marker
  recorded as \<open>current\<close> or as an ancestor lies in \<open>home\<close> or in a directory below it, hence
  in no directory strictly above \<open>home\<close>.
\<close>

theorem detectMonorepoChain_within_home:
  assumes "prefix home startDir"
    and "m \<in> set (case current (detectMonorepoChain fs cwd (pathString home) startDir) of
                    None \<Rightarrow> [] | Some c \<Rightarrow> [c])
           \<union> set (ancestors (detectMonorepoChain fs cwd (pathString home) startDir))"
  shows "prefix home (dirname m) \<and> \<not> strict_prefix (dirname m) home"
proof -
  from assms(2) have "m \<in> set (walkUp fs (pathString home) startDir [])"
    unfolding chain_members .
  with walkUp_inv[OF assms(1), of "[]" fs] have "prefix home (dirname m)"
    by simp
  then show ?thesis by (auto simp: strict_prefix_def)
qed

theorem detectMonorepoChain_within_home_witness:
  "prefix [''home'', ''user''] [''home'', ''user'', ''proj''] \<and>
   pathString [''home'', ''user''] = ''/home/user'' \<and>
   detectMonorepoChain marker_tree [] ''/home/user'' [''home'', ''user'', ''proj''] =
     \<lparr> global = None, ancestors = [], current = Some [''home'', ''user'', ''proj'', ''.agents''] \<rparr> \<and>
   prefix [''home'', ''user''] (dirname [''home'', ''user'', ''proj'', ''.agents'']) \<and>
   \<not> strict_prefix (dirname [''home'', ''user'', ''proj'', ''.agents'']) [''home'', ''user'']"
proof -
  have p: "prefix [''home'', ''user''] [''home'', ''user'', ''proj'']" by simp
  have s: "pathString [''home'', ''user''] = ''/home/user''"
    by (simp add: pathString_def)
  have c: "detectMonorepoChain marker_tree [] ''/home/user'' [''home'', ''user'', ''proj''] =
     \<lparr> global = None, ancestors = [], current = Some [''home'', ''user'', ''proj'', ''.agents''] \<rparr>"
    by code_simp
  have m: "[''home'', ''user'', ''proj'', ''.agents'']
      \<in> set (case current (detectMonorepoChain marker_tree [] (pathString [''home'', ''user''])
                  [''home'', ''user'', ''proj''])
                of None \<Rightarrow> [] | Some c \<Rightarrow> [c])
        \<union> set (ancestors (detectMonorepoChain marker_tree [] (pathString [''home'', ''user''])
                  [''home'', ''user'', ''proj'']))"
    unfolding s c by simp
  from detectMonorepoChain_within_home[OF p m] p s c show ?thesis by simp
qed

text \<open>
  C5 as stated fails, in two ways. The walk of a start directory that is not below
  \<open>homeDir\<close> never meets \<open>homeDir\<close> and climbs to the filesystem root: started at \<open>/home\<close>
  with \<open>homeDir = /home/user\<close>, the marker \<open>/home/.agents\<close> becomes \<open>current\<close> and the marker
  \<open>/.agents\<close> an ancestor. And a \<open>homeDir\<close> that is not written as \<open>path.dirname\<close> writes
  it is never met either: with \<open>homeDir = /home/user/\<close> the walk from \<open>/home/user/proj\<close>
  records the same two markers as ancestors. Both directories are strictly above
  \<open>homeDir\<close>.
\<close>

theorem detectMonorepoChain_above_home:
  "detectMonorepoChain marker_tree [] ''/home/user'' [''home''] =
     \<lparr> global = None, ancestors = [[''.agents'']], current = Some [''home'', ''.agents''] \<rparr> \<and>
   detectMonorepoChain marker_tree [] ''/home/user/'' [''home'', ''user'', ''proj''] =
     \<lparr> global = None, ancestors = [[''home'', ''.agents''], [''.agents'']],
       current = Some [''home'', ''user'', ''proj'', ''.agents''] \<rparr> \<and>
   resolveString [] ''/home/user'' = [''home'', ''user''] \<and>
   resolveString [] ''/home/user/'' = [''home'', ''user''] \<and>
   strict_prefix (dirname [''home'', ''.agents'']) [''home'', ''user''] \<and>
   strict_prefix (dirname [''.agents'']) [''home'', ''user'']"
  by code_simp

text \<open>
  C10. When the walk starts at \<open>homeDir\<close> and \<open>homeDir\<close> holds a marker, the marker is both
  \<open>current\<close> and \<open>global\<close>; the effective chain lists the home root twice, and the merge
  engine counts it twice: under \<open>extend\<close> a resource of the home root is one of two
  directories with content, so the resolution, when it returns, returns the synthesized
  merge directory and not the resource itself. \<open>homeDir\<close> equals the resolved \<open>startDir\<close>
  as a string: it is the string of the normalised path \<open>home\<close>.
\<close>

theorem home_root_listed_twice:
  assumes "pathExists fs (join home ''.agents'')" and "normalised home"
  shows "detectMonorepoChain fs cwd (pathString home) home =
           \<lparr> global = Some (join home ''.agents''), ancestors = [],
             current = Some (join home ''.agents'') \<rparr> \<and>
         getEffectiveChain (detectMonorepoChain fs cwd (pathString home) home) =
           [join home ''.agents'', join home ''.agents''] \<and>
         (pathExists fs (join (join home ''.agents'') resource) \<longrightarrow>
            dirsWithContent fs (getEffectiveChain (detectMonorepoChain fs cwd (pathString home) home))
                resource =
              [join (join home ''.agents'') resource, join (join home ''.agents'') resource] \<and>
            (\<forall>fs' r. mergeDirectoryChain fs
                        (getEffectiveChain (detectMonorepoChain fs cwd (pathString home) home))
                        (join home ''.agents'') resource Extend None = Some (fs', r) \<longrightarrow>
                      r = Some (join (join (join home ''.agents'') MERGED_DIR) resource)))"
proof -
  have w: "walkUp fs (pathString home) home [] = [join home ''.agents'']"
    using assms(1) by (subst walkUp.simps) (simp add: Let_def)
  have c: "detectMonorepoChain fs cwd (pathString home) home =
           \<lparr> global = Some (join home ''.agents''), ancestors = [],
             current = Some (join home ''.agents'') \<rparr>"
    using assms(1)
    by (simp add: detectMonorepoChain_def Let_def w resolveString_pathString[OF assms(2)])
  have e: "getEffectiveChain (detectMonorepoChain fs cwd (pathString home) home) =
           [join home ''.agents'', join home ''.agents'']"
    unfolding c by (simp add: getEffectiveChain_def)
  show ?thesis
    unfolding e
    by (auto simp: c dirsWithContent_def mergeDirectoryChain_def Let_def split: option.splits)
qed

theorem home_root_listed_twice_witness:
  "pathExists (Dir [(''u'', Dir [(''.agents'', Dir [(''commands'', Dir [(''a.md'', File ''A'')])])])])
      (join [''u''] ''.agents'') \<and>
   normalised [''u''] \<and> pathString [''u''] = ''/u'' \<and>
   pathExists (Dir [(''u'', Dir [(''.agents'', Dir [(''commands'', Dir [(''a.md'', File ''A'')])])])])
      (join (join [''u''] ''.agents'') ''commands'') \<and>
   getEffectiveChain (detectMonorepoChain
      (Dir [(''u'', Dir [(''.agents'', Dir [(''commands'', Dir [(''a.md'', File ''A'')])])])])
      [''w''] ''/u'' [''u'']) = [join [''u''] ''.agents'', join [''u''] ''.agents''] \<and>
   dirsWithContent
      (Dir [(''u'', Dir [(''.agents'', Dir [(''commands'', Dir [(''a.md'', File ''A'')])])])])
      (getEffectiveChain (detectMonorepoChain
         (Dir [(''u'', Dir [(''.agents'', Dir [(''commands'', Dir [(''a.md'', File ''A'')])])])])
         [''w''] ''/u'' [''u''])) ''commands''
     = [join (join [''u''] ''.agents'') ''commands'', join (join [''u''] ''.agents'') ''commands'']"
proof -
  let ?fs = "Dir [(''u'', Dir [(''.agents'', Dir [(''commands'', Dir [(''a.md'', File ''A'')])])])]"
  have h: "pathExists ?fs (join [''u''] ''.agents'')"
    by (simp add: pathExists_def join_def)
  have n: "normalised [''u'']"
    by (simp add: normalised_def)
  have s: "pathString [''u''] = ''/u''"
    by (simp add: pathString_def)
  have r: "pathExists ?fs (join (join [''u''] ''.agents'') ''commands'')"
    by (simp add: pathExists_def join_def)
  from home_root_listed_twice[OF h n, of "[''w'']" "''commands''"] h n r show ?thesis
    unfolding s by blast
qed

subsection \<open>The instructions-file rule of the mapping builder\<close>

lemma dir_mappings_kind [simp]:
  "kind (commandsMapping roots clients src) = DirKind"
  "kind (hooksMapping roots clients src) = DirKind"
  "kind (skillsMapping roots clients src) = DirKind"
  by (simp_all add: commandsMapping_def hooksMapping_def skillsMapping_def)

lemma filter_file_instructions:
  "filter (\<lambda>m. kind m = FileKind) (instructionsMappings roots clients src) =
     instructionsMappings roots clients src"
  by (simp add: instructionsMappings_def Let_def)

lemma getMonorepoMappings_files:
  assumes "getMonorepoMappings fs parse env chain optProjectRoot optHomeDir optClients = Some (fs', ms)"
    and "getEffectiveChain chain \<noteq> []"
    and "currentRoot = (case current chain of Some c \<Rightarrow> c | None \<Rightarrow> hd (getEffectiveChain chain))"
    and "mergeAgentsMd fs (getEffectiveChain chain) currentRoot
          (getExtendBehavior (loadMonorepoConfig fs parse currentRoot) ResAgentsMd) = Some (fs1, Some src)"
  shows "filter (\<lambda>m. kind m = FileKind) ms =
            instructionsMappings (resolveMonorepoRoots env chain optProjectRoot optHomeDir)
              (case optClients of Some cs \<Rightarrow> cs | None \<Rightarrow> allClients) src"
  using assms
  by (auto simp: getMonorepoMappings_def Let_def filter_file_instructions
      split: option.splits prod.splits)

lemma instructionsMappings_claude:
  "instructionsMappings roots clients (dir @ [''CLAUDE.md'']) =
     (if Claude \<in> set clients
      then [\<lparr> name = ''claude-md'', source = dir @ [''CLAUDE.md''],
              targets = [claudeRoot roots @ [''CLAUDE.md'']], kind = FileKind \<rparr>]
      else [])"
  by (simp add: instructionsMappings_def basename_def join_def)

lemma agentTargets_explicit:
  "agentTargets roots clients =
     (if Factory \<in> set clients then [factoryRoot roots @ [''AGENTS.md'']] else []) @
     (if Codex \<in> set clients then [codexRoot roots @ [''AGENTS.md'']] else []) @
     (if Opencode \<in> set clients then [opencodeConfigRoot roots @ [''AGENTS.md'']] else [])"
  by (simp add: agentTargets_def ifHas_def join_def)

lemma getMappings_files:
  "filter (\<lambda>m. kind m = FileKind) (getMappings fs env scope optProjectRoot optHomeDir optClients) =
     (let roots = resolveRoots env scope optProjectRoot optHomeDir;
          clients = (case optClients of Some cs \<Rightarrow> cs | None \<Rightarrow> allClients)
      in if scope = Global then
           (if Claude \<in> set clients then
              [\<lparr> name = ''claude-md'',
                 source = (if pathExists fs (join (canonicalRoot roots) ''CLAUDE.md'')
                           then join (canonicalRoot roots) ''CLAUDE.md''
                           else join (canonicalRoot roots) ''AGENTS.md''),
                 targets = [join (claudeRoot roots) ''CLAUDE.md''], kind = FileKind \<rparr>]
            else []) @
           (if agentTargets roots clients \<noteq> [] then
              [\<lparr> name = ''agents-md'', source = join (canonicalRoot roots) ''AGENTS.md'',
                 targets = agentTargets roots clients, kind = FileKind \<rparr>]
            else [])
         else [])"
  by (simp add: getMappings_def Let_def)

lemma global_roots:
  "canonicalRoot (resolveRoots env Global optProjectRoot optHomeDir) =
     (case optHomeDir of Some h \<Rightarrow> h | None \<Rightarrow> os_homedir env) @ [''.agents'']"
  "claudeRoot (resolveRoots env Global optProjectRoot optHomeDir) =
     (case optHomeDir of Some h \<Rightarrow> h | None \<Rightarrow> os_homedir env) @ [''.claude'']"
  "factoryRoot (resolveRoots env Global optProjectRoot optHomeDir) =
     (case optHomeDir of Some h \<Rightarrow> h | None \<Rightarrow> os_homedir env) @ [''.factory'']"
  "codexRoot (resolveRoots env Global optProjectRoot optHomeDir) =
     (case optHomeDir of Some h \<Rightarrow> h | None \<Rightarrow> os_homedir env) @ [''.codex'']"
  "opencodeConfigRoot (resolveRoots env Global optProjectRoot optHomeDir) =
     (case optHomeDir of Some h \<Rightarrow> h | None \<Rightarrow> os_homedir env) @ [''.config'', ''opencode'']"
  by (simp_all add: resolveRoots_def Let_def join_def)

lemma monorepo_claudeRoot:
  "claudeRoot (resolveMonorepoRoots env chain optProjectRoot optHomeDir) =
     (case current chain of
        Some c \<Rightarrow> butlast c
      | None \<Rightarrow> (case optProjectRoot of Some p \<Rightarrow> p | None \<Rightarrow> process_cwd env)) @ [''.claude'']"
  by (simp add: resolveMonorepoRoots_def Let_def join_def dirname_def split: option.splits)

text \<open>
  C4. The instructions-file mappings are the mappings of kind \<open>file\<close>; \<open>clients\<close> are the
  requested clients, \<open>home\<close> is the home directory and \<open>proj\<close> the project root of the
  monorepo builder. In \<open>getMappings\<close> with the global scope, when \<open>CLAUDE.md\<close> is there in
  the canonical root, the instructions-file mappings are these: for the claude client,
  if requested, one whose source is that \<open>CLAUDE.md\<close> and whose target is
  \<open>home/.claude/CLAUDE.md\<close>; and for factory, codex and opencode, as far as requested, one
  whose source is \<open>AGENTS.md\<close> of the canonical root and whose targets are
  \<open>home/.factory/AGENTS.md\<close>, \<open>home/.codex/AGENTS.md\<close> and
  \<open>home/.config/opencode/AGENTS.md\<close>. With the project scope \<open>getMappings\<close> maps no
  instructions file for any client, so the rule applies to no mapping there. In
  \<open>getMonorepoMappings\<close>, when the merge engine resolves the instructions file to a path
  named \<open>CLAUDE.md\<close>, the only instructions-file mapping is the one of the claude client,
  if requested, with that very path as its source and \<open>proj/.claude/CLAUDE.md\<close> as its
  target: factory, codex and opencode get none, for the resolution returned no
  \<open>AGENTS.md\<close>.
\<close>

theorem instructions_file_rule:
  assumes "clients = (case optClients of Some cs \<Rightarrow> cs
                       | None \<Rightarrow> [Claude, Factory, Codex, Cursor, Opencode])"
    and "home = (case optHomeDir of Some h \<Rightarrow> h | None \<Rightarrow> os_homedir env)"
    and "proj = (case current chain of
                   Some c \<Rightarrow> butlast c
                 | None \<Rightarrow> (case optProjectRoot of Some p \<Rightarrow> p | None \<Rightarrow> process_cwd env))"
  shows
    "(pathExists fs (home @ [''.agents'', ''CLAUDE.md'']) \<longrightarrow>
      filter (\<lambda>m. kind m = FileKind) (getMappings fs env Global optProjectRoot optHomeDir optClients) =
        (if Claude \<in> set clients
         then [\<lparr> name = ''claude-md'', source = home @ [''.agents'', ''CLAUDE.md''],
                 targets = [home @ [''.claude'', ''CLAUDE.md'']], kind = FileKind \<rparr>]
         else []) @
        (if Factory \<in> set clients \<or> Codex \<in> set clients \<or> Opencode \<in> set clients
         then [\<lparr> name = ''agents-md'', source = home @ [''.agents'', ''AGENTS.md''],
                 targets =
                   (if Factory \<in> set clients then [home @ [''.factory'', ''AGENTS.md'']] else []) @
                   (if Codex \<in> set clients then [home @ [''.codex'', ''AGENTS.md'']] else []) @
                   (if Opencode \<in> set clients
                    then [home @ [''.config'', ''opencode'', ''AGENTS.md'']] else []),
                 kind = FileKind \<rparr>]
         else []))
     \<and>
     filter (\<lambda>m. kind m = FileKind) (getMappings fs env Project optProjectRoot optHomeDir optClients) = []
     \<and>
     (getEffectiveChain chain \<noteq> [] \<and>
      currentRoot = (case current chain of Some c \<Rightarrow> c | None \<Rightarrow> hd (getEffectiveChain chain)) \<and>
      mergeAgentsMd fs (getEffectiveChain chain) currentRoot
        (getExtendBehavior (loadMonorepoConfig fs parse currentRoot) ResAgentsMd) =
        Some (fs1, Some (dir @ [''CLAUDE.md''])) \<and>
      getMonorepoMappings fs parse env chain optProjectRoot optHomeDir optClients = Some (fs', ms)
      \<longrightarrow>
      filter (\<lambda>m. kind m = FileKind) ms =
        (if Claude \<in> set clients
         then [\<lparr> name = ''claude-md'', source = dir @ [''CLAUDE.md''],
                 targets = [proj @ [''.claude'', ''CLAUDE.md'']], kind = FileKind \<rparr>]
         else []))"
proof (intro conjI impI)
  have cl: "(case optClients of Some cs \<Rightarrow> cs | None \<Rightarrow> allClients) = clients"
    by (simp add: assms(1) allClients_def split: option.splits)
  {
    assume "pathExists fs (home @ [''.agents'', ''CLAUDE.md''])"
    then show "filter (\<lambda>m. kind m = FileKind)
        (getMappings fs env Global optProjectRoot optHomeDir optClients) =
        (if Claude \<in> set clients
         then [\<lparr> name = ''claude-md'', source = home @ [''.agents'', ''CLAUDE.md''],
                 targets = [home @ [''.claude'', ''CLAUDE.md'']], kind = FileKind \<rparr>]
         else []) @
        (if Factory \<in> set clients \<or> Codex \<in> set clients \<or> Opencode \<in> set clients
         then [\<lparr> name = ''agents-md'', source = home @ [''.agents'', ''AGENTS.md''],
                 targets =
                   (if Factory \<in> set clients then [home @ [''.factory'', ''AGENTS.md'']] else []) @
                   (if Codex \<in> set clients then [home @ [''.codex'', ''AGENTS.md'']] else []) @
                   (if Opencode \<in> set clients
                    then [home @ [''.config'', ''opencode'', ''AGENTS.md'']] else []),
                 kind = FileKind \<rparr>]
         else [])"
      unfolding getMappings_files Let_def cl agentTargets_explicit global_roots assms(2)[symmetric]
      by (simp add: join_def)
  }
  show "filter (\<lambda>m. kind m = FileKind)
      (getMappings fs env Project optProjectRoot optHomeDir optClients) = []"
    by (simp add: getMappings_files Let_def)
  {
    assume a: "getEffectiveChain chain \<noteq> [] \<and>
      currentRoot = (case current chain of Some c \<Rightarrow> c | None \<Rightarrow> hd (getEffectiveChain chain)) \<and>
      mergeAgentsMd fs (getEffectiveChain chain) currentRoot
        (getExtendBehavior (loadMonorepoConfig fs parse currentRoot) ResAgentsMd) =
        Some (fs1, Some (dir @ [''CLAUDE.md''])) \<and>
      getMonorepoMappings fs parse env chain optProjectRoot optHomeDir optClients = Some (fs', ms)"
    note a1 = a[THEN conjunct1]
    note a2 = a[THEN conjunct2, THEN conjunct1]
    note a3 = a[THEN conjunct2, THEN conjunct2, THEN conjunct1]
    note a4 = a[THEN conjunct2, THEN conjunct2, THEN conjunct2]
    have "filter (\<lambda>m. kind m = FileKind) ms =
            instructionsMappings (resolveMonorepoRoots env chain optProjectRoot optHomeDir)
              clients (dir @ [''CLAUDE.md''])"
      using getMonorepoMappings_files[OF a4 a1 a2 a3] unfolding cl .
    then show "filter (\<lambda>m. kind m = FileKind) ms =
        (if Claude \<in> set clients
         then [\<lparr> name = ''claude-md'', source = dir @ [''CLAUDE.md''],
                 targets = [proj @ [''.claude'', ''CLAUDE.md'']], kind = FileKind \<rparr>]
         else [])"
      unfolding instructionsMappings_claude monorepo_claudeRoot assms(3)[symmetric] by simp
  }
qed

theorem instructions_file_rule_witness:
  "filter (\<lambda>m. kind m = FileKind)
     (getMappings (Dir [(''h'', Dir [(''.agents'', Dir [(''CLAUDE.md'', File ''c'')])])])
        \<lparr> os_homedir = [''h''], process_cwd = [''p''] \<rparr> Global None None None) =
     [\<lparr> name = ''claude-md'', source = [''h'', ''.agents'', ''CLAUDE.md''],
        targets = [[''h'', ''.claude'', ''CLAUDE.md'']], kind = FileKind \<rparr>,
      \<lparr> name = ''agents-md'', source = [''h'', ''.agents'', ''AGENTS.md''],
        targets = [[''h'', ''.factory'', ''AGENTS.md''], [''h'', ''.codex'', ''AGENTS.md''],
                   [''h'', ''.config'', ''opencode'', ''AGENTS.md'']], kind = FileKind \<rparr>] \<and>
   getMonorepoMappings
     (Dir [(''p'', Dir [(''.agents'', Dir [(''CLAUDE.md'', File ''c''), (''AGENTS.md'', File ''a'')])])])
     (\<lambda>text. None) \<lparr> os_homedir = [''h''], process_cwd = [''p''] \<rparr>
     \<lparr> global = None, ancestors = [], current = Some [''p'', ''.agents''] \<rparr> None None None
   = Some (Dir [(''p'', Dir [(''.agents'', Dir [(''CLAUDE.md'', File ''c''), (''AGENTS.md'', File ''a'')])])],
           [\<lparr> name = ''claude-md'', source = [''p'', ''.agents'', ''CLAUDE.md''],
              targets = [[''p'', ''.claude'', ''CLAUDE.md'']], kind = FileKind \<rparr>]) \<and>
   filter (\<lambda>m. kind m = FileKind)
     [\<lparr> name = ''claude-md'', source = [''p'', ''.agents'', ''CLAUDE.md''],
        targets = [[''p'', ''.claude'', ''CLAUDE.md'']], kind = FileKind \<rparr>]
   = [\<lparr> name = ''claude-md'', source = [''p'', ''.agents''] @ [''CLAUDE.md''],
        targets = [[''p''] @ [''.claude'', ''CLAUDE.md'']], kind = FileKind \<rparr>]"
proof -
  let ?gfs = "Dir [(''h'', Dir [(''.agents'', Dir [(''CLAUDE.md'', File ''c'')])])]"
  let ?fs = "Dir [(''p'', Dir [(''.agents'', Dir [(''CLAUDE.md'', File ''c''), (''AGENTS.md'', File ''a'')])])]"
  let ?env = "\<lparr> os_homedir = [''h''], process_cwd = [''p''] \<rparr>"
  let ?chain = "\<lparr> global = None, ancestors = [], current = Some [''p'', ''.agents''] \<rparr>"
  let ?m = "\<lparr> name = ''claude-md'', source = [''p'', ''.agents'', ''CLAUDE.md''],
              targets = [[''p'', ''.claude'', ''CLAUDE.md'']], kind = FileKind \<rparr>"
  have c: "[Claude, Factory, Codex, Cursor, Opencode] =
      (case None of Some cs \<Rightarrow> cs | None \<Rightarrow> [Claude, Factory, Codex, Cursor, Opencode])"
    by simp
  have hh: "[''h''] = (case None of Some h \<Rightarrow> h | None \<Rightarrow> os_homedir ?env)"
    by simp
  have pp: "[''p''] = (case current ?chain of
                   Some c \<Rightarrow> butlast c
                 | None \<Rightarrow> (case None of Some p \<Rightarrow> p | None \<Rightarrow> process_cwd ?env))"
    by simp
  have gp: "[''p''] = (case current \<lparr> global = None, ancestors = [], current = None \<rparr> of
                   Some c \<Rightarrow> butlast c
                 | None \<Rightarrow> (case None of Some p \<Rightarrow> p | None \<Rightarrow> process_cwd ?env))"
    by simp
  have ex: "pathExists ?gfs ([''h''] @ [''.agents'', ''CLAUDE.md''])"
    by (simp add: pathExists_def)
  from instructions_file_rule[OF c hh gp, of ?gfs, THEN conjunct1, THEN mp, OF ex]
  have g: "filter (\<lambda>m. kind m = FileKind) (getMappings ?gfs ?env Global None None None) =
     [\<lparr> name = ''claude-md'', source = [''h'', ''.agents'', ''CLAUDE.md''],
        targets = [[''h'', ''.claude'', ''CLAUDE.md'']], kind = FileKind \<rparr>,
      \<lparr> name = ''agents-md'', source = [''h'', ''.agents'', ''AGENTS.md''],
        targets = [[''h'', ''.factory'', ''AGENTS.md''], [''h'', ''.codex'', ''AGENTS.md''],
                   [''h'', ''.config'', ''opencode'', ''AGENTS.md'']], kind = FileKind \<rparr>]"
    by simp
  have e: "getEffectiveChain ?chain = [[''p'', ''.agents'']]"
    by (simp add: getEffectiveChain_def)
  have cfg: "loadMonorepoConfig ?fs (\<lambda>text. None) [''p'', ''.agents''] = emptyConfig"
    by (simp add: loadMonorepoConfig_def join_def pathExists_def)
  have beh: "getExtendBehavior emptyConfig r = Inherit" for r
    by (simp add: getExtendBehavior_def emptyConfig_def)
  have a: "mergeAgentsMd ?fs [[''p'', ''.agents'']] [''p'', ''.agents''] Inherit
             = Some (?fs, Some ([''p'', ''.agents''] @ [''CLAUDE.md'']))"
    by (simp add: mergeAgentsMd_def claudeOrAgents_def join_def pathExists_def)
  have m: "getMonorepoMappings ?fs (\<lambda>text. None) ?env ?chain None None None = Some (?fs, [?m])"
    by code_simp
  have h: "getEffectiveChain ?chain \<noteq> [] \<and>
      [''p'', ''.agents''] = (case current ?chain of Some c \<Rightarrow> c | None \<Rightarrow> hd (getEffectiveChain ?chain)) \<and>
      mergeAgentsMd ?fs (getEffectiveChain ?chain) [''p'', ''.agents'']
        (getExtendBehavior (loadMonorepoConfig ?fs (\<lambda>text. None) [''p'', ''.agents'']) ResAgentsMd)
        = Some (?fs, Some ([''p'', ''.agents''] @ [''CLAUDE.md''])) \<and>
      getMonorepoMappings ?fs (\<lambda>text. None) ?env ?chain None None None = Some (?fs, [?m])"
    using m by (simp add: e cfg beh a)
  from instructions_file_rule[OF c hh pp, THEN conjunct2, THEN conjunct2, THEN mp, OF h]
  have "filter (\<lambda>m. kind m = FileKind) [?m] =
        [\<lparr> name = ''claude-md'', source = [''p'', ''.agents''] @ [''CLAUDE.md''],
           targets = [[''p''] @ [''.claude'', ''CLAUDE.md'']], kind = FileKind \<rparr>]"
    by simp
  with g m show ?thesis by blast
qed

subsection \<open>Status and repair of the link targets\<close>

lemma targetStatuses_total:
  "\<forall>t. pe d t \<longrightarrow> d t \<noteq> Absent \<Longrightarrow> \<exists>rs. targetStatuses pe d src ts = Some rs"
proof (induction ts)
  case Nil
  then show ?case by simp
next
  case (Cons t ts)
  then obtain rs where rs: "targetStatuses pe d src ts = Some rs" by blast
  have "\<exists>st. targetStatus pe d src t = Some st"
  proof (cases "pe d t")
    case False
    then show ?thesis by (simp add: targetStatus_def)
  next
    case True
    with Cons.prems have "d t \<noteq> Absent" by blast
    with True show ?thesis
      by (cases "d t") (auto simp: targetStatus_def split: option.splits)
  qed
  with rs show ?case by auto
qed

lemma mappingStatuses_total:
  "\<forall>t. pe d t \<longrightarrow> d t \<noteq> Absent \<Longrightarrow> \<exists>sts. mappingStatuses pe d ms = Some sts"
proof (induction ms)
  case Nil
  then show ?case by simp
next
  case (Cons m ms)
  then obtain sts where sts: "mappingStatuses pe d ms = Some sts" by blast
  from targetStatuses_total[of pe d, OF Cons.prems] obtain rs where
    "targetStatuses pe d (source m) (targets m) = Some rs" by blast
  with sts show ?case by simp
qed

lemma targetStatuses_fst:
  "targetStatuses pe d src ts = Some rs \<Longrightarrow> map fst rs = ts"
  by (induction ts arbitrary: rs) (auto split: option.splits)

lemma targetStatuses_mem:
  "targetStatuses pe d src ts = Some rs \<Longrightarrow> (t, st) \<in> set rs \<Longrightarrow> targetStatus pe d src t = Some st"
  by (induction ts arbitrary: rs) (auto split: option.splits)

lemma mappingStatuses_shape:
  "mappingStatuses pe d ms = Some sts \<Longrightarrow>
   map ls_name sts = map name ms \<and> map ls_source sts = map source ms \<and>
   map (\<lambda>ls. map fst (ls_targets ls)) sts = map targets ms"
  by (induction ms arbitrary: sts) (auto split: option.splits simp: targetStatuses_fst)

lemma mappingStatuses_mem:
  "mappingStatuses pe d ms = Some sts \<Longrightarrow> ls \<in> set sts \<Longrightarrow>
   \<exists>m \<in> set ms. ls_name ls = name m \<and> ls_source ls = source m \<and>
      targetStatuses pe d (source m) (targets m) = Some (ls_targets ls)"
  by (induction ms arbitrary: sts) (auto split: option.splits)

lemma targetStatus_cases:
  assumes "targetStatus pe d src t = Some st"
  shows "(st = Missing \<longleftrightarrow> \<not> pe d t) \<and>
         (pe d t \<and> (d t = RealDir \<or> (\<exists>c. d t = RealFile c)) \<longrightarrow> st = Conflict) \<and>
         (st = Linked \<longleftrightarrow>
            pe d t \<and>
            (\<exists>a l. d t = Symlink (LinkText a l) \<and>
               path_resolve (if a then l else path_resolve_from (dirname t) l) = path_resolve src))"
proof (cases "pe d t")
  case False
  with assms show ?thesis by (simp add: targetStatus_def)
next
  case True
  show ?thesis
  proof (cases "d t")
    case Absent
    with assms True show ?thesis by (simp add: targetStatus_def)
  next
    case (RealFile c)
    with assms True show ?thesis by (simp add: targetStatus_def)
  next
    case RealDir
    with assms True show ?thesis by (simp add: targetStatus_def)
  next
    case (Symlink lt)
    obtain a l where lt: "lt = LinkText a l" by (cases lt)
    from assms True Symlink lt show ?thesis
      by (auto simp: targetStatus_def resolveLinkTarget_def split: if_splits)
  qed
qed

text \<open>
  C7. \<open>pathExists\<close> is taken to report no path on which \<open>lstat\<close> throws. Then
  \<open>getLinkStatus\<close> and \<open>getMonorepoLinkStatus\<close> return one status for every mapping, in
  the order of the mappings, with the mapping's name and source and with one entry for
  every target, in the order of the targets. Of these entries, the target is \<open>missing\<close>
  when \<open>pathExists\<close> denies it, and no other; a target that is there and is a real
  directory or a real file, whatever its content, is a \<open>conflict\<close>; and a target is
  \<open>linked\<close> when it is there and is a symbolic link whose destination, made absolute from
  the directory of the target and normalised, is the normalised source of the mapping,
  and no other.
\<close>

theorem real_target_is_conflict:
  assumes "\<forall>t. pe d t \<longrightarrow> d t \<noteq> Absent"
    and "r = getLinkStatus pe d fs env scope optProjectRoot optHomeDir optClients \<and>
         ms = getMappings fs env scope optProjectRoot optHomeDir optClients
       \<or> r = getMonorepoLinkStatus pe d fs parse env chain optProjectRoot optHomeDir optClients \<and>
         getMonorepoMappings fs parse env chain optProjectRoot optHomeDir optClients = Some (fs', ms)"
  shows "\<exists>sts. r = Some sts \<and>
           map ls_name sts = map name ms \<and> map ls_source sts = map source ms \<and>
           map (\<lambda>ls. map fst (ls_targets ls)) sts = map targets ms \<and>
           (\<forall>ls \<in> set sts. \<forall>(t, st) \<in> set (ls_targets ls).
              (st = Missing \<longleftrightarrow> \<not> pe d t) \<and>
              (pe d t \<and> (d t = RealDir \<or> (\<exists>c. d t = RealFile c)) \<longrightarrow> st = Conflict) \<and>
              (st = Linked \<longleftrightarrow>
                 pe d t \<and>
                 (\<exists>a l. d t = Symlink (LinkText a l) \<and>
                    path_resolve (if a then l else path_resolve_from (dirname t) l) =
                      path_resolve (ls_source ls))))"
proof -
  from assms(2) have r: "r = mappingStatuses pe d ms"
    by (auto simp: getLinkStatus_def getMonorepoLinkStatus_def)
  from mappingStatuses_total[of pe d, OF assms(1), of ms] obtain sts where
    sts: "mappingStatuses pe d ms = Some sts" by blast
  have e: "(st = Missing \<longleftrightarrow> \<not> pe d t) \<and>
              (pe d t \<and> (d t = RealDir \<or> (\<exists>c. d t = RealFile c)) \<longrightarrow> st = Conflict) \<and>
              (st = Linked \<longleftrightarrow>
                 pe d t \<and>
                 (\<exists>a l. d t = Symlink (LinkText a l) \<and>
                    path_resolve (if a then l else path_resolve_from (dirname t) l) =
                      path_resolve (ls_source ls)))"
    if "ls \<in> set sts" "(t, st) \<in> set (ls_targets ls)" for ls t st
  proof -
    from mappingStatuses_mem[OF sts that(1)] obtain m where
      m: "ls_source ls = source m" "targetStatuses pe d (source m) (targets m) = Some (ls_targets ls)"
      and "m \<in> set ms"
      by blast
    from targetStatuses_mem[OF m(2) that(2)] have "targetStatus pe d (ls_source ls) t = Some st"
      by (simp add: m(1))
    then show ?thesis by (rule targetStatus_cases)
  qed
  then have "\<forall>ls \<in> set sts. \<forall>(t, st) \<in> set (ls_targets ls).
              (st = Missing \<longleftrightarrow> \<not> pe d t) \<and>
              (pe d t \<and> (d t = RealDir \<or> (\<exists>c. d t = RealFile c)) \<longrightarrow> st = Conflict) \<and>
              (st = Linked \<longleftrightarrow>
                 pe d t \<and>
                 (\<exists>a l. d t = Symlink (LinkText a l) \<and>
                    path_resolve (if a then l else path_resolve_from (dirname t) l) =
                      path_resolve (ls_source ls)))"
    by blast
  with r sts mappingStatuses_shape[OF sts] show ?thesis by blast
qed

theorem real_target_is_conflict_witness:
  "getLinkStatus (\<lambda>d p. d p \<noteq> Absent) status_disk (Dir [])
      \<lparr> os_homedir = [''h''], process_cwd = [''w''] \<rparr> Global None None (Some [Claude, Factory]) =
     Some [\<lparr> ls_name = ''claude-md'', ls_source = [''h'', ''.agents'', ''AGENTS.md''],
             ls_targets = [([''h'', ''.claude'', ''CLAUDE.md''], Linked)] \<rparr>,
           \<lparr> ls_name = ''agents-md'', ls_source = [''h'', ''.agents'', ''AGENTS.md''],
             ls_targets = [([''h'', ''.factory'', ''AGENTS.md''], Conflict)] \<rparr>,
           \<lparr> ls_name = ''commands'', ls_source = [''h'', ''.agents'', ''commands''],
             ls_targets = [([''h'', ''.claude'', ''commands''], Conflict),
                           ([''h'', ''.factory'', ''commands''], Linked)] \<rparr>,
           \<lparr> ls_name = ''hooks'', ls_source = [''h'', ''.agents'', ''hooks''],
             ls_targets = [([''h'', ''.claude'', ''hooks''], Missing),
                           ([''h'', ''.factory'', ''hooks''], Missing)] \<rparr>,
           \<lparr> ls_name = ''skills'', ls_source = [''h'', ''.agents'', ''skills''],
             ls_targets = [([''h'', ''.claude'', ''skills''], Missing),
                           ([''h'', ''.factory'', ''skills''], Missing)] \<rparr>] \<and>
   status_disk [''h'', ''.factory'', ''AGENTS.md''] = RealFile ''same'' \<and>
   status_disk [''h'', ''.agents'', ''AGENTS.md''] = RealFile ''same'' \<and>
   (\<exists>sts. getLinkStatus (\<lambda>d p. d p \<noteq> Absent) status_disk (Dir [])
             \<lparr> os_homedir = [''h''], process_cwd = [''w''] \<rparr> Global None None
             (Some [Claude, Factory]) = Some sts \<and>
          map ls_name sts =
            map name (getMappings (Dir []) \<lparr> os_homedir = [''h''], process_cwd = [''w''] \<rparr> Global
                        None None (Some [Claude, Factory])))"
proof -
  let ?pe = "\<lambda>(d::disk) p. d p \<noteq> Absent"
  let ?env = "\<lparr> os_homedir = [''h''], process_cwd = [''w''] \<rparr>"
  have h: "\<forall>t. ?pe status_disk t \<longrightarrow> status_disk t \<noteq> Absent" by simp
  have s: "getLinkStatus ?pe status_disk (Dir []) ?env Global None None (Some [Claude, Factory]) =
             getLinkStatus ?pe status_disk (Dir []) ?env Global None None (Some [Claude, Factory]) \<and>
           getMappings (Dir []) ?env Global None None (Some [Claude, Factory]) =
             getMappings (Dir []) ?env Global None None (Some [Claude, Factory])
         \<or> getLinkStatus ?pe status_disk (Dir []) ?env Global None None (Some [Claude, Factory]) =
             getMonorepoLinkStatus ?pe status_disk (Dir []) (\<lambda>text. None) ?env
               \<lparr> global = None, ancestors = [], current = None \<rparr> None None (Some [Claude, Factory]) \<and>
           getMonorepoMappings (Dir []) (\<lambda>text. None) ?env
               \<lparr> global = None, ancestors = [], current = None \<rparr> None None (Some [Claude, Factory]) =
             Some (Dir [], getMappings (Dir []) ?env Global None None (Some [Claude, Factory]))"
    by simp
  from real_target_is_conflict[OF h s]
  have 1: "\<exists>sts. getLinkStatus ?pe status_disk (Dir []) ?env Global None None
             (Some [Claude, Factory]) = Some sts \<and>
          map ls_name sts =
            map name (getMappings (Dir []) ?env Global None None (Some [Claude, Factory]))"
    by blast
  have 2: "getLinkStatus ?pe status_disk (Dir []) ?env Global None None (Some [Claude, Factory]) =
     Some [\<lparr> ls_name = ''claude-md'', ls_source = [''h'', ''.agents'', ''AGENTS.md''],
             ls_targets = [([''h'', ''.claude'', ''CLAUDE.md''], Linked)] \<rparr>,
           \<lparr> ls_name = ''agents-md'', ls_source = [''h'', ''.agents'', ''AGENTS.md''],
             ls_targets = [([''h'', ''.factory'', ''AGENTS.md''], Conflict)] \<rparr>,
           \<lparr> ls_name = ''commands'', ls_source = [''h'', ''.agents'', ''commands''],
             ls_targets = [([''h'', ''.claude'', ''commands''], Conflict),
                           ([''h'', ''.factory'', ''commands''], Linked)] \<rparr>,
           \<lparr> ls_name = ''hooks'', ls_source = [''h'', ''.agents'', ''hooks''],
             ls_targets = [([''h'', ''.claude'', ''hooks''], Missing),
                           ([''h'', ''.factory'', ''hooks''], Missing)] \<rparr>,
           \<lparr> ls_name = ''skills'', ls_source = [''h'', ''.agents'', ''skills''],
             ls_targets = [([''h'', ''.claude'', ''skills''], Missing),
                           ([''h'', ''.factory'', ''skills''], Missing)] \<rparr>]"
    by code_simp
  have 3: "status_disk [''h'', ''.factory'', ''AGENTS.md''] = RealFile ''same''"
    "status_disk [''h'', ''.agents'', ''AGENTS.md''] = RealFile ''same''"
    by (simp_all add: status_disk_def)
  from 1 2 3 show ?thesis by blast
qed

lemma ensureSymlink_linked:
  assumes "pe d t" and "resolveLinkTarget d t = Some resolved"
    and "path_resolve resolved = path_resolve src"
  shows "ensureSymlink pe mk d src t k = (Skipped, d)"
  using assms
  by (auto simp: ensureSymlink_def resolveLinkTarget_def Let_def
      split: if_splits target.splits option.splits linktext.splits)

lemma repairTargets_linked:
  "\<forall>t \<in> set ts. pe d t \<and> (\<exists>resolved. resolveLinkTarget d t = Some resolved \<and>
        path_resolve resolved = path_resolve src) \<Longrightarrow>
   repairTargets pe mk src k ts (r, d) = (r\<lparr>skipped := skipped r + length ts\<rparr>, d)"
proof (induction ts arbitrary: r)
  case Nil
  then show ?case by simp
next
  case (Cons t ts)
  then obtain resolved where "pe d t" "resolveLinkTarget d t = Some resolved"
    "path_resolve resolved = path_resolve src" by auto
  then have "ensureSymlink pe mk d src t k = (Skipped, d)"
    by (rule ensureSymlink_linked)
  with Cons show ?case by simp
qed

lemma repairMappings_linked:
  "\<forall>m \<in> set ms. \<forall>t \<in> set (targets m). pe d t \<and>
      (\<exists>resolved. resolveLinkTarget d t = Some resolved \<and>
         path_resolve resolved = path_resolve (source m)) \<Longrightarrow>
   repairMappings pe mk ms (r, d) =
     (r\<lparr>skipped := skipped r + sum_list (map (\<lambda>m. length (targets m)) ms)\<rparr>, d)"
  by (induction ms arbitrary: r) (simp_all add: repairTargets_linked)

text \<open>
  C6. When every target of every mapping is there and is a symbolic link whose resolved
  destination is the mapping's source, the loops of \<open>repair\<close> create nothing, update
  nothing, report no error, count every target as skipped and leave the disk as it was.
\<close>

theorem repair_idempotent:
  assumes "\<forall>m \<in> set mappings. \<forall>t \<in> set (targets m). pe d t \<and>
      (\<exists>resolved. resolveLinkTarget d t = Some resolved \<and>
         path_resolve resolved = path_resolve (source m))"
  shows "repair pe mk mappings d =
           (\<lparr> created = 0, updated = 0,
              skipped = sum_list (map (\<lambda>m. length (targets m)) mappings), errors = [] \<rparr>, d)"
  unfolding repair_def by (simp add: repairMappings_linked[of mappings pe d, OF assms])

theorem repair_idempotent_witness:
  "repair (\<lambda>d p. d p \<noteq> Absent) (\<lambda>d p. None) [linked_mapping] linked_disk =
     (\<lparr> created = 0, updated = 0, skipped = 2, errors = [] \<rparr>, linked_disk)"
proof -
  have h: "\<forall>m \<in> set [linked_mapping]. \<forall>t \<in> set (targets m). linked_disk t \<noteq> Absent \<and>
      (\<exists>resolved. resolveLinkTarget linked_disk t = Some resolved \<and>
         path_resolve resolved = path_resolve (source m))"
    by (simp add: linked_mapping_def linked_disk_def resolveLinkTarget_def path_resolve_def
        path_resolve_from_def normStep_def dirname_def)
  from repair_idempotent[of "[linked_mapping]" "\<lambda>d p. d p \<noteq> Absent" linked_disk, OF h]
  show ?thesis by (simp add: linked_mapping_def)
qed

subsection \<open>The debounce of the watch daemon\<close>

text \<open>
  C8. Three change events for a watched file name, each less than the debounce delay after
  the one before: every event replaces the pending timeout, so that after the third the
  only timeout is the third one's and no rebuild has started; when the clock runs on, that
  timeout fires and \<open>regenerateMergedContent\<close> is called once.
\<close>

theorem three_rapid_edits_one_rebuild:
  assumes "t1 \<le> t2" and "t2 \<le> t3"
    and "t2 < t1 + DEBOUNCE_DELAY" and "t3 < t2 + DEBOUNCE_DELAY"
    and "shouldWatch f"
  shows "foldl (step DEBOUNCE_DELAY) idle
           [FsChange t1 a1 (Some f), FsChange t2 a2 (Some f), FsChange t3 a3 (Some f)]
         = idle\<lparr>timer := Some (t3 + DEBOUNCE_DELAY, a3, Some f)\<rparr> \<and>
         rebuilds (watchRun
           [FsChange t1 a1 (Some f), FsChange t2 a2 (Some f), FsChange t3 a3 (Some f)]) = 1"
  using assms
  by (simp add: watchRun_def settle_def fireDue_def debounce_def idle_def handleChange_def
      rebuildDone_def Let_def)

theorem three_rapid_edits_one_rebuild_witness:
  "(0::nat) \<le> 40 \<and> (40::nat) \<le> 120 \<and> 40 < 0 + DEBOUNCE_DELAY \<and> 120 < 40 + DEBOUNCE_DELAY \<and>
   shouldWatch ''AGENTS.md'' \<and>
   rebuilds (watchRun
     [FsChange 0 [''p'', ''.agents''] (Some ''AGENTS.md''),
      FsChange 40 [''p'', ''.agents''] (Some ''AGENTS.md''),
      FsChange 120 [''p'', ''.agents''] (Some ''AGENTS.md'')]) = 1"
proof -
  have a: "(0::nat) \<le> 40" "(40::nat) \<le> 120" "40 < 0 + DEBOUNCE_DELAY" "120 < 40 + DEBOUNCE_DELAY"
    by (simp_all add: DEBOUNCE_DELAY_def)
  have w: "shouldWatch ''AGENTS.md''"
    by (simp add: shouldWatch_def WATCHED_PATTERNS_def)
  from three_rapid_edits_one_rebuild[OF a w] a w show ?thesis by blast
qed

subsection \<open>Sub-trees\<close>

lemma lookup_append:
  "lookup fs (p @ q) = (case lookup fs p of None \<Rightarrow> None | Some n \<Rightarrow> lookup n q)"
proof (induction p arbitrary: fs)
  case Nil
  then show ?case by simp
next
  case (Cons s p)
  then show ?case by (cases fs) (simp_all split: option.splits)
qed

lemma lookup_Dir_Nil: "lookup (Dir []) q = (if q = [] then Some (Dir []) else None)"
  by (cases q) simp_all

lemma lookup_orEmpty:
  "q \<noteq> [] \<Longrightarrow> lookup (orEmpty (map_of es s)) q = lookup (Dir es) (s # q)"
  by (simp add: orEmpty_def lookup_Dir_Nil split: option.splits)

lemma orEmpty_lookup_Cons:
  "orEmpty (lookup (orEmpty (map_of es s)) p) = orEmpty (lookup (Dir es) (s # p))"
  by (simp add: orEmpty_def lookup_Dir_Nil split: option.splits)

lemma modifyAt_append: "modifyAt (p @ q) f fs = modifyAt p (modifyAt q f) fs"
proof (induction p arbitrary: fs)
  case Nil
  then show ?case by simp
next
  case (Cons s p)
  then show ?case by (cases fs) simp_all
qed

lemma modifyAt_result:
  "modifyAt p f fs = Some fs' \<Longrightarrow>
   \<exists>n'. f (orEmpty (lookup fs p)) = Some n' \<and> lookup fs' p = Some n'"
proof (induction p arbitrary: fs fs')
  case Nil
  then show ?case by (simp add: orEmpty_def)
next
  case (Cons s p)
  show ?case
  proof (cases fs)
    case (File c)
    with Cons.prems show ?thesis by simp
  next
    case (Dir es)
    from Cons.prems Dir obtain n' where n': "modifyAt p f (orEmpty (map_of es s)) = Some n'"
      and fs': "fs' = Dir (AList.update s n' es)"
      by (auto split: option.splits)
    from Cons.IH[OF n'] obtain m where
      m: "f (orEmpty (lookup (orEmpty (map_of es s)) p)) = Some m" "lookup n' p = Some m"
      by blast
    have "lookup fs' (s # p) = lookup n' p"
      by (simp add: fs' AList.update_conv')
    with m show ?thesis by (simp only: orEmpty_lookup_Cons Dir) simp
  qed
qed

lemma lookup_modifyAt_same:
  "modifyAt p f fs = Some fs' \<Longrightarrow> lookup fs' p = f (orEmpty (lookup fs p))"
  using modifyAt_result[of p f fs fs'] by auto

lemma lookup_modifyAt_frame:
  "modifyAt p f fs = Some fs' \<Longrightarrow> \<not> prefix p q \<Longrightarrow> \<not> prefix q p \<Longrightarrow> lookup fs' q = lookup fs q"
proof (induction p arbitrary: fs fs' q)
  case Nil
  then show ?case by simp
next
  case (Cons s p)
  from Cons.prems(3) obtain t q' where q: "q = t # q'" by (cases q) auto
  show ?case
  proof (cases fs)
    case (File c)
    with Cons.prems show ?thesis by simp
  next
    case (Dir es)
    from Cons.prems Dir obtain n' where n': "modifyAt p f (orEmpty (map_of es s)) = Some n'"
      and fs': "fs' = Dir (AList.update s n' es)"
      by (auto split: option.splits)
    show ?thesis
    proof (cases "t = s")
      case False
      then show ?thesis by (simp add: q fs' Dir AList.update_conv')
    next
      case True
      with Cons.prems q have np: "\<not> prefix p q'" "\<not> prefix q' p" by auto
      then have "q' \<noteq> []" by auto
      have "lookup fs' q = lookup n' q'"
        by (simp add: q True fs' AList.update_conv')
      also have "\<dots> = lookup (orEmpty (map_of es s)) q'"
        by (rule Cons.IH[OF n' np])
      also have "\<dots> = lookup fs q"
        using \<open>q' \<noteq> []\<close> by (simp add: q True Dir lookup_orEmpty)
      finally show ?thesis .
    qed
  qed
qed

lemma modifyAt_bind:
  "(case modifyAt p f fs of None \<Rightarrow> None | Some fs1 \<Rightarrow> modifyAt p g fs1) = modifyAt p (thenDo f g) fs"
proof (induction p arbitrary: fs)
  case Nil
  then show ?case by (simp add: thenDo_def split: option.splits)
next
  case (Cons s p)
  show ?case
  proof (cases fs)
    case (File c)
    then show ?thesis by simp
  next
    case (Dir es)
    show ?thesis
    proof (cases "modifyAt p f (orEmpty (map_of es s))")
      case None
      with Cons.IH[of "orEmpty (map_of es s)"] show ?thesis by (simp add: Dir)
    next
      case (Some n')
      with Cons.IH[of "orEmpty (map_of es s)"] show ?thesis
        by (simp add: Dir AList.update_conv' orEmpty_def split: option.splits)
    qed
  qed
qed

lemma modifyAt_succeeds:
  "lookup fs p = Some n \<Longrightarrow> f n = Some n' \<Longrightarrow> \<exists>fs'. modifyAt p f fs = Some fs'"
proof (induction p arbitrary: fs)
  case Nil
  then show ?case by simp
next
  case (Cons s p)
  show ?case
  proof (cases fs)
    case (File c)
    with Cons.prems show ?thesis by simp
  next
    case (Dir es)
    with Cons.prems obtain ch where ch: "map_of es s = Some ch" "lookup ch p = Some n"
      by (auto split: option.splits)
    from Cons.IH[OF ch(2) Cons.prems(2)] ch(1) show ?thesis
      by (auto simp: Dir orEmpty_def)
  qed
qed

lemma modifyAt_Some_id: "lookup fs p = Some n \<Longrightarrow> modifyAt p Some fs = Some fs"
proof (induction p arbitrary: fs)
  case Nil
  then show ?case by simp
next
  case (Cons s p)
  show ?case
  proof (cases fs)
    case (File c)
    with Cons.prems show ?thesis by simp
  next
    case (Dir es)
    with Cons.prems obtain ch where ch: "map_of es s = Some ch" "lookup ch p = Some n"
      by (auto split: option.splits)
    from Cons.IH[OF ch(2)] ch(1) show ?thesis
      by (simp add: Dir orEmpty_def AList.update_triv)
  qed
qed

text \<open>Each write of the engine changes the sub-tree at a prefix of its path, and nothing else.\<close>

lemma ensureDir_local: "ensureDir fs (p @ q) = modifyAt p (\<lambda>d. ensureDir d q) fs"
proof (induction p arbitrary: fs)
  case Nil
  then show ?case by simp
next
  case (Cons s p)
  then show ?case by (cases fs) (simp_all add: orEmpty_def)
qed

lemma ensureDir_modifyAt: "ensureDir fs p = modifyAt p (\<lambda>d. ensureDir d []) fs"
  using ensureDir_local[of fs p "[]"] by simp

lemma ensureDir_Nil_Some: "ensureDir d [] = Some d' \<Longrightarrow> d' = d \<and> (\<exists>ds. d = Dir ds)"
  by (cases d) auto

lemma writeFile_local:
  "lookup fs p = Some (Dir es) \<Longrightarrow>
   writeFile fs (p @ [n]) c = modifyAt p (\<lambda>d. writeFile d [n] c) fs"
proof (induction p arbitrary: fs)
  case Nil
  then show ?case by simp
next
  case (Cons s p)
  show ?case
  proof (cases fs)
    case (File c)
    with Cons.prems show ?thesis by simp
  next
    case (Dir ds)
    with Cons.prems obtain ch where ch: "map_of ds s = Some ch" "lookup ch p = Some (Dir es)"
      by (auto split: option.splits)
    from Cons.IH[OF ch(2)] ch(1) show ?thesis
      by (cases p) (simp_all add: Dir orEmpty_def)
  qed
qed

lemma writeFile_root_Dir: "writeFile (Dir ds) [n] c = Some d' \<Longrightarrow> \<exists>ds'. d' = Dir ds'"
  by (auto split: option.splits fsnode.splits)

lemma copyFiles_root_Dir:
  "copyFiles es [] d = Some d' \<Longrightarrow> \<exists>ds. d = Dir ds \<Longrightarrow> \<exists>ds'. d' = Dir ds'"
proof (induction es arbitrary: d)
  case Nil
  then show ?case by auto
next
  case (Cons e es)
  obtain n x where e: "e = (n, x)" by (cases e)
  show ?case
  proof (cases x)
    case (Dir sub)
    with Cons e show ?thesis by simp
  next
    case (File c)
    from Cons.prems(2) obtain ds where ds: "d = Dir ds" by blast
    from Cons.prems(1) e File ds obtain d1 where d1: "writeFile (Dir ds) [n] c = Some d1"
      and r: "copyFiles es [] d1 = Some d'"
      by (auto simp: join_def split: option.splits)
    from Cons.IH[OF r] writeFile_root_Dir[OF d1] show ?thesis by blast
  qed
qed

lemma copyFiles_local:
  "lookup fs p = Some (Dir ds) \<Longrightarrow> copyFiles es p fs = modifyAt p (copyFiles es []) fs"
proof (induction es arbitrary: fs ds)
  case Nil
  have "copyFiles [] [] = Some" by (simp add: fun_eq_iff)
  with Nil show ?case by (simp add: modifyAt_Some_id)
next
  case (Cons e es)
  obtain n x where e: "e = (n, x)" by (cases e)
  show ?case
  proof (cases x)
    case (Dir sub)
    have "copyFiles ((n, Dir sub) # es) [] = copyFiles es []" by (simp add: fun_eq_iff)
    with Cons e Dir show ?thesis by simp
  next
    case (File c)
    have w: "writeFile fs (p @ [n]) c = modifyAt p (\<lambda>d. writeFile d [n] c) fs"
      by (rule writeFile_local[OF Cons.prems])
    have f: "copyFiles ((n, File c) # es) [] = thenDo (\<lambda>d. writeFile d [n] c) (copyFiles es [])"
      by (simp add: fun_eq_iff thenDo_def join_def)
    show ?thesis
    proof (cases "modifyAt p (\<lambda>d. writeFile d [n] c) fs")
      case None
      with modifyAt_bind[where p = p and f = "\<lambda>d. writeFile d [n] c" and fs = fs and g = "copyFiles es []"]
      show ?thesis by (simp add: e File w f join_def)
    next
      case (Some fs1)
      from modifyAt_result[OF Some] Cons.prems
      obtain d1 where "writeFile (Dir ds) [n] c = Some d1" "lookup fs1 p = Some d1"
        by (auto simp: orEmpty_def)
      with writeFile_root_Dir obtain ds1 where "lookup fs1 p = Some (Dir ds1)"
        by blast
      from Cons.IH[OF this] have "copyFiles es p fs1 = modifyAt p (copyFiles es []) fs1" .
      with Some modifyAt_bind[where p = p and f = "\<lambda>d. writeFile d [n] c" and fs = fs and g = "copyFiles es []"]
      show ?thesis by (simp add: e File w f join_def)
    qed
  qed
qed


lemma modifyAt_root_Dir: "modifyAt [n] f (Dir ds) = Some d' \<Longrightarrow> \<exists>ds'. d' = Dir ds'"
  by (auto split: option.splits)

lemma copySubdirs_local:
  assumes IH: "\<And>e sub p fs. e \<in> set es \<Longrightarrow> snd e = Dir sub \<Longrightarrow>
                 copyTree sub p fs = modifyAt p (copyTree sub []) fs"
    and "lookup fs p = Some (Dir ds)"
  shows "copySubdirs es p fs = modifyAt p (copySubdirs es []) fs"
  using assms
proof (induction es arbitrary: fs ds)
  case Nil
  have "copySubdirs [] [] = Some" by (simp add: fun_eq_iff)
  with Nil show ?case by (simp add: modifyAt_Some_id)
next
  case (Cons e es)
  obtain n x where e: "e = (n, x)" by (cases e)
  have IH': "copyTree sub p fs = modifyAt p (copyTree sub []) fs"
    if "e' \<in> set es" "snd e' = Dir sub" for e' sub p fs
    using Cons.prems(1)[of e' sub p fs] that by simp
  show ?case
  proof (cases x)
    case (File c)
    have "copySubdirs ((n, File c) # es) [] = copySubdirs es []" by (simp add: fun_eq_iff)
    with Cons.IH[OF IH' Cons.prems(2)] e File show ?thesis by simp
  next
    case (Dir sub)
    have sub: "copyTree sub q g = modifyAt q (copyTree sub []) g" for q g
      using Cons.prems(1)[of e sub q g] e Dir by simp
    have "modifyAt [n] (copyTree sub []) = copyTree sub [n]"
      unfolding fun_eq_iff using sub[of "[n]"] by simp
    then have t: "copyTree sub (p @ [n]) fs = modifyAt p (copyTree sub [n]) fs"
      using sub[of "p @ [n]" fs] by (simp only: modifyAt_append)
    have f: "copySubdirs ((n, Dir sub) # es) [] = thenDo (copyTree sub [n]) (copySubdirs es [])"
      by (simp add: fun_eq_iff thenDo_def join_def)
    show ?thesis
    proof (cases "modifyAt p (copyTree sub [n]) fs")
      case None
      with modifyAt_bind[where p = p and f = "copyTree sub [n]" and fs = fs and g = "copySubdirs es []"]
      show ?thesis by (simp add: e Dir t f join_def)
    next
      case (Some fs1)
      from modifyAt_result[OF Some] Cons.prems(2)
      obtain d1 where d1: "copyTree sub [n] (Dir ds) = Some d1" "lookup fs1 p = Some d1"
        by (auto simp: orEmpty_def)
      from d1(1) sub[of "[n]" "Dir ds"] have "modifyAt [n] (copyTree sub []) (Dir ds) = Some d1"
        by simp
      from modifyAt_root_Dir[OF this] d1(2) obtain ds1 where "lookup fs1 p = Some (Dir ds1)"
        by blast
      from Cons.IH[OF IH' this] have "copySubdirs es p fs1 = modifyAt p (copySubdirs es []) fs1" .
      with Some modifyAt_bind[where p = p and f = "copyTree sub [n]" and fs = fs and g = "copySubdirs es []"]
      show ?thesis by (simp add: e Dir t f join_def)
    qed
  qed
qed

lemma copyTree_root_unfold:
  "copyTree es [] =
     thenDo (\<lambda>d. ensureDir d []) (thenDo (copyFiles es []) (copySubdirs es []))"
  by (simp add: fun_eq_iff thenDo_def copyTree.simps split: option.splits)

lemma copyTree_local_aux:
  "(case n of File c \<Rightarrow> True
    | Dir es \<Rightarrow> \<forall>p fs. copyTree es p fs = modifyAt p (copyTree es []) fs)"
proof (induction n rule: wf_node.induct)
  case (1 c)
  then show ?case by simp
next
  case (2 es)
  have IH: "copyTree sub p fs = modifyAt p (copyTree sub []) fs"
    if "e \<in> set es" "snd e = Dir sub" for e sub p fs
    using 2[OF that(1)] that(2) by simp
  have "copyTree es p fs = modifyAt p (copyTree es []) fs" for p fs
  proof (cases "modifyAt p (\<lambda>d. ensureDir d []) fs")
    case None
    with modifyAt_bind[where p = p and f = "\<lambda>d. ensureDir d []" and fs = fs
        and g = "thenDo (copyFiles es []) (copySubdirs es [])"]
    show ?thesis by (simp add: copyTree_root_unfold copyTree.simps[of es p fs] ensureDir_modifyAt[of fs p])
  next
    case (Some fs1)
    from modifyAt_result[OF Some] obtain d1 where
      d1: "ensureDir (orEmpty (lookup fs p)) [] = Some d1" "lookup fs1 p = Some d1"
      by blast
    from ensureDir_Nil_Some[OF d1(1)] d1(2) obtain ds1 where l1: "lookup fs1 p = Some (Dir ds1)"
      by auto
    have cf: "copyFiles es p fs1 = modifyAt p (copyFiles es []) fs1"
      by (rule copyFiles_local[OF l1])
    have b1: "modifyAt p (copyTree es []) fs =
              modifyAt p (thenDo (copyFiles es []) (copySubdirs es [])) fs1"
      using Some modifyAt_bind[where p = p and f = "\<lambda>d. ensureDir d []" and fs = fs
        and g = "thenDo (copyFiles es []) (copySubdirs es [])"]
      by (simp add: copyTree_root_unfold)
    show ?thesis
    proof (cases "modifyAt p (copyFiles es []) fs1")
      case None
      with modifyAt_bind[where p = p and f = "copyFiles es []" and fs = fs1
        and g = "copySubdirs es []"]
      show ?thesis using Some cf b1 by (simp add: copyTree.simps[of es p fs] ensureDir_modifyAt[of fs p])
    next
      case fs2: (Some fs2)
      from modifyAt_result[OF fs2] l1 obtain d2 where
        d2: "copyFiles es [] (Dir ds1) = Some d2" "lookup fs2 p = Some d2"
        by (auto simp: orEmpty_def)
      from copyFiles_root_Dir[OF d2(1)] d2(2) obtain ds2 where l2: "lookup fs2 p = Some (Dir ds2)"
        by auto
      have cs: "copySubdirs es p fs2 = modifyAt p (copySubdirs es []) fs2"
        by (rule copySubdirs_local[OF IH l2])
      from modifyAt_bind[where p = p and f = "copyFiles es []" and fs = fs1
        and g = "copySubdirs es []"] fs2
      have "modifyAt p (thenDo (copyFiles es []) (copySubdirs es [])) fs1 =
            modifyAt p (copySubdirs es []) fs2" by simp
      with Some cf fs2 cs b1 show ?thesis by (simp add: copyTree.simps[of es p fs] ensureDir_modifyAt[of fs p])
    qed
  qed
  then show ?case by simp
qed

lemma copyTree_local: "copyTree es p fs = modifyAt p (copyTree es []) fs"
  using copyTree_local_aux[of "Dir es"] by simp


subsection \<open>What a copy leaves at its destination\<close>

lemma kindAt_Nil_Dir [simp]: "kindAt (Dir es) [] = Some IsDir"
  by (simp add: kindAt_def)

lemma kindAt_Cons [simp]:
  "kindAt (Dir es) (n # q) = (case map_of es n of None \<Rightarrow> None | Some x \<Rightarrow> kindAt x q)"
  by (simp add: kindAt_def split: option.splits)

lemma kindAt_File [simp]: "kindAt (File c) q = (if q = [] then Some (IsFile c) else None)"
  by (cases q) (simp_all add: kindAt_def)

lemma kindAt_empty: "kindAt (Dir []) q = (if q = [] then Some IsDir else None)"
  by (cases q) simp_all

lemma kindAt_orEmpty:
  "q \<noteq> [] \<Longrightarrow> kindAt (orEmpty (map_of ds n)) q = kindAt (Dir ds) (n # q)"
  by (simp add: orEmpty_def kindAt_empty split: option.splits)

lemma clash_simps [simp]:
  "\<not> clash a None" "\<not> clash None b" "\<not> clash (Some IsDir) (Some IsDir)"
  "\<not> clash (Some (IsFile c)) (Some (IsFile c'))"
  "clash (Some (IsFile c)) (Some IsDir)" "clash (Some IsDir) (Some (IsFile c))"
  by (auto simp: clash_def split: option.splits kind.splits)

lemma over_simps [simp]: "over None d = d" "over (Some k) d = Some k"
  by (simp_all add: over_def)

lemma copyFiles_root:
  assumes "distinct (map fst es)"
    and "\<forall>n c x. (n, File c) \<in> set es \<longrightarrow> map_of ds n \<noteq> Some (Dir x)"
  shows "\<exists>ds'. copyFiles es [] (Dir ds) = Some (Dir ds') \<and>
           (\<forall>n. map_of ds' n =
              (case map_of es n of Some (File c) \<Rightarrow> Some (File c) | _ \<Rightarrow> map_of ds n))"
  using assms
proof (induction es arbitrary: ds)
  case Nil
  then show ?case by simp
next
  case (Cons e es)
  obtain m x where e: "e = (m, x)" by (cases e)
  from Cons.prems(1) e have dist: "distinct (map fst es)" and notin: "m \<notin> fst ` set es"
    by auto
  from notin have mnone: "map_of es m = None" by (simp add: map_of_eq_None_iff)
  show ?case
  proof (cases x)
    case (Dir sub)
    have "\<forall>n c x. (n, File c) \<in> set es \<longrightarrow> map_of ds n \<noteq> Some (Dir x)"
      using Cons.prems(2) by auto
    from Cons.IH[OF dist this] obtain ds' where
      r: "copyFiles es [] (Dir ds) = Some (Dir ds')"
      and c: "\<forall>n. map_of ds' n =
              (case map_of es n of Some (File c) \<Rightarrow> Some (File c) | _ \<Rightarrow> map_of ds n)"
      by auto
    have "map_of ds' n =
        (case map_of (e # es) n of Some (File c) \<Rightarrow> Some (File c) | _ \<Rightarrow> map_of ds n)" for n
      using c[rule_format, of n] mnone by (simp add: e Dir)
    with r show ?thesis by (auto simp: e Dir)
  next
    case (File c)
    from Cons.prems(2) e File have nd: "\<And>x. map_of ds m \<noteq> Some (Dir x)" by simp
    then have w: "writeFile (Dir ds) [m] c = Some (Dir (AList.update m (File c) ds))"
      by (auto split: option.splits fsnode.splits)
    have "\<forall>n c' x. (n, File c') \<in> set es \<longrightarrow> map_of (AList.update m (File c) ds) n \<noteq> Some (Dir x)"
      using Cons.prems(2) by (auto simp: AList.update_conv')
    from Cons.IH[OF dist this] obtain ds' where
      r: "copyFiles es [] (Dir (AList.update m (File c) ds)) = Some (Dir ds')"
      and c: "\<forall>n. map_of ds' n =
              (case map_of es n of Some (File c) \<Rightarrow> Some (File c)
               | _ \<Rightarrow> map_of (AList.update m (File c) ds) n)"
      by auto
    have "map_of ds' n =
        (case map_of (e # es) n of Some (File c) \<Rightarrow> Some (File c) | _ \<Rightarrow> map_of ds n)" for n
      using c[rule_format, of n] mnone
      by (auto simp: e File AList.update_conv' split: option.splits fsnode.splits)
    with r w show ?thesis by (auto simp: e File join_def)
  qed
qed


lemma copySubdirs_root:
  assumes "distinct (map fst es)"
    and "\<forall>e sub. e \<in> set es \<and> snd e = Dir sub \<longrightarrow> copiesWell sub"
    and "\<forall>n sub. (n, Dir sub) \<in> set es \<longrightarrow>
            (\<exists>dd. orEmpty (map_of ds n) = Dir dd) \<and>
            (\<forall>q. \<not> clash (kindAt (Dir sub) q) (kindAt (orEmpty (map_of ds n)) q))"
  shows "\<exists>ds'. copySubdirs es [] (Dir ds) = Some (Dir ds') \<and>
           (\<forall>n. case map_of es n of
                  Some (Dir sub) \<Rightarrow>
                    (\<exists>r. map_of ds' n = Some (Dir r) \<and>
                         copiedOver (Dir sub) (orEmpty (map_of ds n)) (Dir r))
                | _ \<Rightarrow> map_of ds' n = map_of ds n)"
  using assms
proof (induction es arbitrary: ds)
  case Nil
  then show ?case by simp
next
  case (Cons e es)
  obtain m x where e: "e = (m, x)" by (cases e)
  from Cons.prems(1) e have dist: "distinct (map fst es)" and notin: "m \<notin> fst ` set es"
    by auto
  from notin have mnone: "map_of es m = None" by (simp add: map_of_eq_None_iff)
  have elems: "\<forall>e sub. e \<in> set es \<and> snd e = Dir sub \<longrightarrow> copiesWell sub"
    using Cons.prems(2) by simp
  show ?case
  proof (cases x)
    case (File c)
    have "\<forall>n sub. (n, Dir sub) \<in> set es \<longrightarrow>
            (\<exists>dd. orEmpty (map_of ds n) = Dir dd) \<and>
            (\<forall>q. \<not> clash (kindAt (Dir sub) q) (kindAt (orEmpty (map_of ds n)) q))"
      using Cons.prems(3) by simp
    from Cons.IH[OF dist elems this] obtain ds' where
      r: "copySubdirs es [] (Dir ds) = Some (Dir ds')"
      and c: "\<forall>n. case map_of es n of
                  Some (Dir sub) \<Rightarrow>
                    (\<exists>r. map_of ds' n = Some (Dir r) \<and>
                         copiedOver (Dir sub) (orEmpty (map_of ds n)) (Dir r))
                | _ \<Rightarrow> map_of ds' n = map_of ds n"
      by auto
    have "case map_of (e # es) n of
                  Some (Dir sub) \<Rightarrow>
                    (\<exists>r. map_of ds' n = Some (Dir r) \<and>
                         copiedOver (Dir sub) (orEmpty (map_of ds n)) (Dir r))
                | _ \<Rightarrow> map_of ds' n = map_of ds n" for n
      using c[rule_format, of n] mnone by (cases "n = m") (simp_all add: e File)
    with r show ?thesis by (auto simp: e File)
  next
    case (Dir sub)
    from Cons.prems(3)[rule_format, of m sub] e Dir
    have "(\<exists>dd. orEmpty (map_of ds m) = Dir dd) \<and>
          (\<forall>q. \<not> clash (kindAt (Dir sub) q) (kindAt (orEmpty (map_of ds m)) q))"
      by simp
    then obtain dd where dd: "orEmpty (map_of ds m) = Dir dd"
      and nc: "\<forall>q. \<not> clash (kindAt (Dir sub) q) (kindAt (Dir dd) q)"
      by metis
    from Cons.prems(2) e Dir have "copiesWell sub" by simp
    with nc obtain r0 where r0: "copyTree sub [] (Dir dd) = Some (Dir r0)"
      and co: "copiedOver (Dir sub) (Dir dd) (Dir r0)"
      unfolding copiesWell_def by blast
    have step: "copyTree sub [m] (Dir ds) = Some (Dir (AList.update m (Dir r0) ds))"
      using copyTree_local[of sub "[m]" "Dir ds"] r0 dd by simp
    have "\<forall>n sub'. (n, Dir sub') \<in> set es \<longrightarrow>
            (\<exists>dd. orEmpty (map_of (AList.update m (Dir r0) ds) n) = Dir dd) \<and>
            (\<forall>q. \<not> clash (kindAt (Dir sub') q)
                   (kindAt (orEmpty (map_of (AList.update m (Dir r0) ds) n)) q))"
    proof (intro allI impI)
      fix n sub' assume a: "(n, Dir sub') \<in> set es"
      with notin have "n \<noteq> m" by force
      with Cons.prems(3)[rule_format, of n sub'] a
      show "(\<exists>dd. orEmpty (map_of (AList.update m (Dir r0) ds) n) = Dir dd) \<and>
            (\<forall>q. \<not> clash (kindAt (Dir sub') q)
                   (kindAt (orEmpty (map_of (AList.update m (Dir r0) ds) n)) q))"
        by (simp add: AList.update_conv')
    qed
    from Cons.IH[OF dist elems this] obtain ds' where
      r: "copySubdirs es [] (Dir (AList.update m (Dir r0) ds)) = Some (Dir ds')"
      and c: "\<forall>n. case map_of es n of
                  Some (Dir sub) \<Rightarrow>
                    (\<exists>r. map_of ds' n = Some (Dir r) \<and>
                         copiedOver (Dir sub) (orEmpty (map_of (AList.update m (Dir r0) ds) n)) (Dir r))
                | _ \<Rightarrow> map_of ds' n = map_of (AList.update m (Dir r0) ds) n"
      by auto
    have "case map_of (e # es) n of
                  Some (Dir sub) \<Rightarrow>
                    (\<exists>r. map_of ds' n = Some (Dir r) \<and>
                         copiedOver (Dir sub) (orEmpty (map_of ds n)) (Dir r))
                | _ \<Rightarrow> map_of ds' n = map_of ds n" for n
    proof (cases "n = m")
      case True
      from c[rule_format, of m] mnone have "map_of ds' m = Some (Dir r0)"
        by (simp add: AList.update_conv')
      with co dd True show ?thesis by (simp add: e Dir)
    next
      case False
      with c[rule_format, of n] show ?thesis
        by (simp add: e Dir AList.update_conv' split: option.splits fsnode.splits)
    qed
    with r step show ?thesis by (auto simp: e Dir join_def)
  qed
qed


lemma copiesWell_aux:
  "case n of File c \<Rightarrow> True | Dir es \<Rightarrow> wf_node (Dir es) \<longrightarrow> copiesWell es"
proof (induction n rule: wf_node.induct)
  case (1 c)
  then show ?case by simp
next
  case (2 es)
  show ?case
  proof (simp only: fsnode.case, intro impI)
    assume wf: "wf_node (Dir es)"
    then have dist: "distinct (map fst es)" by simp
    have elems: "\<forall>e sub. e \<in> set es \<and> snd e = Dir sub \<longrightarrow> copiesWell sub"
    proof (intro allI impI)
      fix e sub assume a: "e \<in> set es \<and> snd e = Dir sub"
      then have e1: "e \<in> set es" and e2: "snd e = Dir sub" by simp_all
      from wf e1 have "wf_node (snd e)" by simp
      then have w: "wf_node (Dir sub)" unfolding e2 .
      from 2[OF e1] have "wf_node (Dir sub) \<longrightarrow> copiesWell sub" unfolding e2 by simp
      with w show "copiesWell sub" by blast
    qed
    have inFile: "map_of es n = Some (File c)" if "(n, File c) \<in> set es" for n c
      using that dist by simp
    have inDir: "map_of es n = Some (Dir sub)" if "(n, Dir sub) \<in> set es" for n sub
      using that dist by simp
    show "copiesWell es"
      unfolding copiesWell_def
    proof (intro allI impI)
      fix dd
      assume nc: "\<forall>q. \<not> clash (kindAt (Dir es) q) (kindAt (Dir dd) q)"
      have noDir: "map_of dd n \<noteq> Some (Dir x)" if "map_of es n = Some (File c)" for n c x
        using nc[rule_format, of "[n]"] that by (auto split: option.splits)
      have noFile: "map_of dd n \<noteq> Some (File c)" if "map_of es n = Some (Dir sub)" for n c sub
        using nc[rule_format, of "[n]"] that by (auto split: option.splits)
      have "\<forall>n c x. (n, File c) \<in> set es \<longrightarrow> map_of dd n \<noteq> Some (Dir x)"
        using inFile noDir by blast
      from copyFiles_root[OF dist this] obtain d1 where
        r1: "copyFiles es [] (Dir dd) = Some (Dir d1)"
        and c1: "\<forall>n. map_of d1 n =
              (case map_of es n of Some (File c) \<Rightarrow> Some (File c) | _ \<Rightarrow> map_of dd n)"
        by auto
      have pre: "\<forall>n sub. (n, Dir sub) \<in> set es \<longrightarrow>
            (\<exists>x. orEmpty (map_of d1 n) = Dir x) \<and>
            (\<forall>q. \<not> clash (kindAt (Dir sub) q) (kindAt (orEmpty (map_of d1 n)) q))"
      proof (intro allI impI)
        fix n sub assume "(n, Dir sub) \<in> set es"
        then have m: "map_of es n = Some (Dir sub)" by (rule inDir)
        with c1 have same: "map_of d1 n = map_of dd n" by simp
        have isdir: "\<exists>x. orEmpty (map_of dd n) = Dir x"
          using noFile[OF m] by (cases "map_of dd n") (auto simp: orEmpty_def intro: fsnode.exhaust)
        have "\<not> clash (kindAt (Dir sub) q) (kindAt (orEmpty (map_of dd n)) q)" for q
        proof (cases "q = []")
          case True
          with isdir show ?thesis by auto
        next
          case False
          with nc[rule_format, of "n # q"] m show ?thesis
            by (simp add: kindAt_orEmpty)
        qed
        with isdir same
        show "(\<exists>x. orEmpty (map_of d1 n) = Dir x) \<and>
            (\<forall>q. \<not> clash (kindAt (Dir sub) q) (kindAt (orEmpty (map_of d1 n)) q))"
          by simp
      qed
      from copySubdirs_root[OF dist elems pre] obtain d2 where
        r2: "copySubdirs es [] (Dir d1) = Some (Dir d2)"
        and c2: "\<forall>n. case map_of es n of
                  Some (Dir sub) \<Rightarrow>
                    (\<exists>r. map_of d2 n = Some (Dir r) \<and>
                         copiedOver (Dir sub) (orEmpty (map_of d1 n)) (Dir r))
                | _ \<Rightarrow> map_of d2 n = map_of d1 n"
        by auto
      have res: "copyTree es [] (Dir dd) = Some (Dir d2)"
        using r1 r2 by (simp add: copyTree_root_unfold thenDo_def)
      have "kindAt (Dir d2) q = over (kindAt (Dir es) q) (kindAt (Dir dd) q)" if "q \<noteq> []" for q
      proof -
        from that obtain n q' where q: "q = n # q'" by (cases q) auto
        show ?thesis
        proof (cases "map_of es n")
          case None
          with c1[rule_format, of n] c2[rule_format, of n] show ?thesis
            by (simp add: q)
        next
          case (Some x)
          show ?thesis
          proof (cases x)
            case (File c)
            with Some c1[rule_format, of n] c2[rule_format, of n]
            have "map_of d2 n = Some (File c)" by simp
            with Some File noDir[of n c] show ?thesis
              by (cases "map_of dd n"; cases "the (map_of dd n)") (auto simp: q)
          next
            case (Dir sub)
            with Some c1[rule_format, of n] have same: "map_of d1 n = map_of dd n" by simp
            from Some Dir c2[rule_format, of n] same obtain r where
              r: "map_of d2 n = Some (Dir r)"
              and co: "copiedOver (Dir sub) (orEmpty (map_of dd n)) (Dir r)"
              by auto
            show ?thesis
            proof (cases "q' = []")
              case True
              with r Some Dir show ?thesis by (simp add: q)
            next
              case False
              with co have "kindAt (Dir r) q' =
                  over (kindAt (Dir sub) q') (kindAt (orEmpty (map_of dd n)) q')"
                by (simp add: copiedOver_def)
              with False r Some Dir show ?thesis
                by (simp add: q kindAt_orEmpty)
            qed
          qed
        qed
      qed
      then have "copiedOver (Dir es) (Dir dd) (Dir d2)"
        by (simp add: copiedOver_def)
      with res show "\<exists>r. copyTree es [] (Dir dd) = Some (Dir r) \<and>
                        copiedOver (Dir es) (Dir dd) (Dir r)"
        by blast
    qed
  qed
qed

lemma copiesWell_wf: "wf_node (Dir es) \<Longrightarrow> copiesWell es"
  using copiesWell_aux[of "Dir es"] by simp

subsection \<open>A chain of copies into one directory\<close>

lemma kindAt_append:
  "lookup fs p = Some n \<Longrightarrow> kindAt fs (p @ q) = kindAt n q"
  by (simp add: kindAt_def lookup_append)

lemma lookup_prefix_exists:
  "lookup fs (p @ q) = Some n \<Longrightarrow> lookup fs p \<noteq> None"
  by (auto simp: lookup_append split: option.splits)

lemma apart_append:
  "\<not> prefix m s \<Longrightarrow> \<not> prefix s m \<Longrightarrow> \<not> prefix m (s @ q) \<and> \<not> prefix (s @ q) m"
  by (auto simp: prefix_append dest: append_prefixD)

lemma firstSome_single [simp]: "firstSome [x] = x"
  by (cases x) simp_all

lemma firstSome_over: "firstSome (xs @ [over a b]) = firstSome (xs @ [a, b])"
proof (induction xs)
  case Nil
  then show ?case by (cases a) simp_all
next
  case (Cons x xs)
  then show ?case by (cases x) simp_all
qed

lemma firstSome_None: "firstSome (xs @ [None]) = firstSome xs"
proof (induction xs)
  case Nil
  then show ?case by simp
next
  case (Cons x xs)
  then show ?case by (cases x) simp_all
qed

lemma clash_over:
  "\<not> clash k a \<Longrightarrow> \<not> clash k b \<Longrightarrow> \<not> clash k (over a b)"
  by (cases a) simp_all

lemma compatible_no_clash:
  "compatible a b \<Longrightarrow> \<not> clash (kindAt a q) (kindAt b q)"
proof (induction q arbitrary: a b)
  case Nil
  then show ?case by (cases a; cases b) simp_all
next
  case (Cons n q)
  show ?case
  proof (cases a)
    case (File c)
    then show ?thesis by simp
  next
    case a: (Dir es)
    show ?thesis
    proof (cases b)
      case (File c)
      with a Cons.prems show ?thesis by simp
    next
      case b: (Dir ds)
      show ?thesis
      proof (cases "map_of es n")
        case None
        with a show ?thesis by simp
      next
        case x: (Some x)
        show ?thesis
        proof (cases "map_of ds n")
          case None
          with b show ?thesis by simp
        next
          case y: (Some y)
          from x have "(n, x) \<in> set es" by (rule map_of_SomeD)
          with Cons.prems a b y have "compatible x y" by fastforce
          from Cons.IH[OF this] a b x y show ?thesis by simp
        qed
      qed
    qed
  qed
qed

lemma copyDirectoryContents_modifyAt:
  "lookup fs src = Some (Dir es) \<Longrightarrow>
   copyDirectoryContents fs src dest = modifyAt dest (copyTree es []) fs"
  by (simp add: copyDirectoryContents_def copyTree_local[of es dest fs])

lemma copyChain_spec:
  assumes "\<forall>s \<in> set ss. \<exists>es. lookup fs s = Some (Dir es) \<and> wf_node (Dir es)"
    and "\<forall>s \<in> set ss. \<not> prefix m s \<and> \<not> prefix s m"
    and "lookup fs m = Some (Dir dd)"
    and "\<forall>s \<in> set ss. \<forall>q. \<not> clash (kindAt fs (s @ q)) (kindAt (Dir dd) q)"
    and "\<forall>s \<in> set ss. \<forall>t \<in> set ss. \<forall>q. \<not> clash (kindAt fs (s @ q)) (kindAt fs (t @ q))"
  shows "\<exists>fs' r. copyChain fs ss m = Some fs' \<and> lookup fs' m = Some (Dir r) \<and>
           (\<forall>q. q \<noteq> [] \<longrightarrow>
              kindAt (Dir r) q =
                firstSome (map (\<lambda>s. kindAt fs (s @ q)) (rev ss) @ [kindAt (Dir dd) q])) \<and>
           (\<forall>x. \<not> prefix m x \<and> \<not> prefix x m \<longrightarrow> lookup fs' x = lookup fs x)"
  using assms
proof (induction ss arbitrary: fs dd)
  case Nil
  then show ?case by simp
next
  case (Cons s ss)
  from Cons.prems(1) obtain es where es: "lookup fs s = Some (Dir es)" and wfes: "wf_node (Dir es)"
    by auto
  have ks: "kindAt fs (s @ q) = kindAt (Dir es) q" for q
    by (rule kindAt_append[OF es])
  from Cons.prems(4) have "\<forall>q. \<not> clash (kindAt (Dir es) q) (kindAt (Dir dd) q)"
    by (simp add: ks)
  with copiesWell_wf[OF wfes] obtain r1 where
    r1: "copyTree es [] (Dir dd) = Some (Dir r1)" and co: "copiedOver (Dir es) (Dir dd) (Dir r1)"
    unfolding copiesWell_def by blast
  from modifyAt_succeeds[where f = "copyTree es []", OF Cons.prems(3) r1] obtain fs1 where
    fs1: "modifyAt m (copyTree es []) fs = Some fs1" by blast
  have step: "copyDirectoryContents fs s m = Some fs1"
    using fs1 by (simp add: copyDirectoryContents_modifyAt[OF es])
  from modifyAt_result[OF fs1] Cons.prems(3) r1 have m1: "lookup fs1 m = Some (Dir r1)"
    by (simp add: orEmpty_def)
  have frame1: "lookup fs1 x = lookup fs x" if "\<not> prefix m x" "\<not> prefix x m" for x
    by (rule lookup_modifyAt_frame[OF fs1 that])
  have apart: "\<not> prefix m t \<and> \<not> prefix t m" if "t \<in> set ss" for t
    using Cons.prems(2) that by simp
  have same: "lookup fs1 (t @ q) = lookup fs (t @ q)" if "t \<in> set ss" for t q
    using frame1[of "t @ q"] apart_append[of m t q] apart[OF that] by blast
  have ksame: "kindAt fs1 (t @ q) = kindAt fs (t @ q)" if "t \<in> set ss" for t q
    using same[OF that, of q] by (simp add: kindAt_def)
  have p1: "\<forall>t \<in> set ss. \<exists>es. lookup fs1 t = Some (Dir es) \<and> wf_node (Dir es)"
    using Cons.prems(1) same[of _ "[]"] by simp
  have p2: "\<forall>t \<in> set ss. \<not> prefix m t \<and> \<not> prefix t m"
    using apart by blast
  have p4: "\<forall>t \<in> set ss. \<forall>q. \<not> clash (kindAt fs1 (t @ q)) (kindAt (Dir r1) q)"
  proof (intro ballI allI)
    fix t q assume t: "t \<in> set ss"
    show "\<not> clash (kindAt fs1 (t @ q)) (kindAt (Dir r1) q)"
    proof (cases "q = []")
      case True
      from Cons.prems(1) t obtain et where "lookup fs t = Some (Dir et)" by auto
      with True ksame[OF t, of "[]"] show ?thesis by (simp add: kindAt_def)
    next
      case False
      with co have "kindAt (Dir r1) q = over (kindAt (Dir es) q) (kindAt (Dir dd) q)"
        by (simp add: copiedOver_def)
      moreover have "\<not> clash (kindAt fs (t @ q)) (kindAt fs (s @ q))"
        using Cons.prems(5) t by simp
      then have "\<not> clash (kindAt fs (t @ q)) (kindAt (Dir es) q)"
        unfolding ks .
      moreover have "\<not> clash (kindAt fs (t @ q)) (kindAt (Dir dd) q)"
        using Cons.prems(4) t by simp
      ultimately show ?thesis
        by (simp add: ksame[OF t] clash_over)
    qed
  qed
  have p5: "\<forall>t \<in> set ss. \<forall>u \<in> set ss. \<forall>q. \<not> clash (kindAt fs1 (t @ q)) (kindAt fs1 (u @ q))"
    using Cons.prems(5) by (simp add: ksame)
  from Cons.IH[OF p1 p2 m1 p4 p5] obtain fs' r where
    c: "copyChain fs1 ss m = Some fs'" and l: "lookup fs' m = Some (Dir r)"
    and k: "\<forall>q. q \<noteq> [] \<longrightarrow>
              kindAt (Dir r) q =
                firstSome (map (\<lambda>s. kindAt fs1 (s @ q)) (rev ss) @ [kindAt (Dir r1) q])"
    and f: "\<forall>x. \<not> prefix m x \<and> \<not> prefix x m \<longrightarrow> lookup fs' x = lookup fs1 x"
    by blast
  have c': "copyChain fs (s # ss) m = Some fs'"
    using step c by simp
  have k': "kindAt (Dir r) q =
      firstSome (map (\<lambda>s. kindAt fs (s @ q)) (rev (s # ss)) @ [kindAt (Dir dd) q])"
    if "q \<noteq> []" for q
  proof -
    have e1: "map (\<lambda>s. kindAt fs1 (s @ q)) (rev ss) = map (\<lambda>s. kindAt fs (s @ q)) (rev ss)"
      by (rule map_cong) (simp_all add: ksame)
    from co that
    have e2: "kindAt (Dir r1) q = over (kindAt fs (s @ q)) (kindAt (Dir dd) q)"
      by (simp add: copiedOver_def ks)
    from k that have "kindAt (Dir r) q =
        firstSome (map (\<lambda>s. kindAt fs1 (s @ q)) (rev ss) @ [kindAt (Dir r1) q])"
      by blast
    then show ?thesis
      unfolding e1 e2 by (simp add: firstSome_over)
  qed
  have f': "lookup fs' x = lookup fs x" if "\<not> prefix m x \<and> \<not> prefix x m" for x
    using f that frame1[of x] by simp
  from c' l k' f' show ?case by blast
qed


subsection \<open>The \<open>extend\<close> merge of a directory resource\<close>

lemma wf_lookup: "wf_node fs \<Longrightarrow> lookup fs p = Some n \<Longrightarrow> wf_node n"
proof (induction p arbitrary: fs)
  case Nil
  then show ?case by simp
next
  case (Cons s p)
  show ?case
  proof (cases fs)
    case (File c)
    with Cons.prems show ?thesis by simp
  next
    case (Dir es)
    with Cons.prems obtain ch where ch: "map_of es s = Some ch" "lookup ch p = Some n"
      by (auto split: option.splits)
    from ch(1) have "(s, ch) \<in> set es" by (rule map_of_SomeD)
    with Cons.prems(1) Dir have "wf_node ch" by fastforce
    from Cons.IH[OF this ch(2)] show ?thesis .
  qed
qed

lemma ensureDir_succeeds:
  "\<forall>q c. prefix q p \<longrightarrow> lookup fs q \<noteq> Some (File c) \<Longrightarrow> \<exists>fs'. ensureDir fs p = Some fs'"
proof (induction p arbitrary: fs)
  case Nil
  then have "lookup fs [] \<noteq> Some (File c)" for c
    using Nil[rule_format, of "[]" c] by simp
  then show ?case by (cases fs) auto
next
  case (Cons s p)
  have "lookup fs [] \<noteq> Some (File c)" for c
    using Cons.prems[rule_format, of "[]" c] by simp
  then obtain es where fs: "fs = Dir es" by (cases fs) auto
  let ?ch = "case map_of es s of None \<Rightarrow> Dir [] | Some n \<Rightarrow> n"
  have "\<forall>q c. prefix q p \<longrightarrow> lookup ?ch q \<noteq> Some (File c)"
  proof (intro allI impI)
    fix q c assume q: "prefix q p"
    then have "prefix (s # q) (s # p)" by simp
    with Cons.prems have l: "lookup fs (s # q) \<noteq> Some (File c)" by blast
    show "lookup ?ch q \<noteq> Some (File c)"
    proof (cases "map_of es s")
      case None
      then show ?thesis by (cases q) simp_all
    next
      case (Some n)
      with l fs show ?thesis by simp
    qed
  qed
  from Cons.IH[OF this] obtain n' where "ensureDir ?ch p = Some n'" by blast
  with fs show ?case by simp
qed

lemma no_entries_orEmpty:
  assumes "\<forall>c. lookup fs m \<noteq> Some (File c)" and "\<forall>n. lookup fs (m @ [n]) = None"
  shows "orEmpty (lookup fs m) = Dir []"
proof (cases "lookup fs m")
  case None
  then show ?thesis by (simp add: orEmpty_def)
next
  case (Some x)
  with assms(1) obtain es where es: "lookup fs m = Some (Dir es)" by (cases x) simp_all
  have "es = []"
  proof (cases es)
    case Nil
    then show ?thesis .
  next
    case (Cons e es')
    obtain k v where "e = (k, v)" by (cases e)
    with Cons es have "lookup fs (m @ [k]) = Some v" by (simp add: lookup_append)
    with assms(2) show ?thesis by simp
  qed
  with es show ?thesis by (simp add: orEmpty_def)
qed

text \<open>
  C1, as the code has it. Let two or more nodes of the chain hold the resource as a
  directory, in a tree where no directory lists a name twice; let no path be a file in one
  of these directories and a directory in another; let no file lie on the path of the
  merge directory \<open><current>/merged/<resource>\<close>, let the merge directory have no entry
  (it need not be there, and \<open><current>/merged\<close> may hold the merge of another resource),
  and let none of the contributing directories be the merge directory or contain it. Then
  resolving the resource under \<open>extend\<close> returns the merge directory, and what the new tree
  shows at any path below it is what the nearest contributing directory that has this
  path shows there: a file with the content of the nearest node that has it, a directory
  where the nodes have directories, whose entries are merged in the same way. The
  contributing directories themselves are left as they were.
\<close>

theorem extend_merges_nearest_wins:
  assumes "dirsWithContent fs agentsPaths resource = dirs"
    and "2 \<le> length dirs"
    and "wf_node fs"
    and "\<forall>s \<in> set dirs. \<exists>es. lookup fs s = Some (Dir es)"
    and "\<forall>s \<in> set dirs. \<forall>t \<in> set dirs. compatible (orEmpty (lookup fs s)) (orEmpty (lookup fs t))"
    and "mergedDir = join (join currentRoot MERGED_DIR) resource"
    and "\<forall>q c. prefix q mergedDir \<longrightarrow> lookup fs q \<noteq> Some (File c)"
    and "\<forall>n. lookup fs (mergedDir @ [n]) = None"
    and "\<forall>s \<in> set dirs. \<not> prefix s mergedDir"
  shows "\<exists>fs'. mergeDirectoryChain fs agentsPaths currentRoot resource Extend includeList =
                 Some (fs', Some mergedDir) \<and>
           (\<forall>q. q \<noteq> [] \<longrightarrow>
              kindAt fs' (mergedDir @ q) = firstSome (map (\<lambda>s. kindAt fs (s @ q)) dirs)) \<and>
           (\<forall>s \<in> set dirs. lookup fs' s = lookup fs s)"
proof -
  let ?m = "mergedDir"
  have mj: "join (join currentRoot MERGED_DIR) resource = ?m" by (simp add: assms(6))
  from ensureDir_succeeds[OF assms(7)] obtain fs1 where fs1: "ensureDir fs ?m = Some fs1"
    by blast
  then have fs1': "modifyAt ?m (\<lambda>d. ensureDir d []) fs = Some fs1"
    by (simp add: ensureDir_modifyAt[of fs ?m])
  have nofile: "\<forall>c. lookup fs ?m \<noteq> Some (File c)"
    using assms(7)[rule_format, of ?m] by simp
  have oe: "orEmpty (lookup fs ?m) = Dir []"
    by (rule no_entries_orEmpty[OF nofile assms(8)])
  from modifyAt_result[OF fs1'] oe have m1: "lookup fs1 ?m = Some (Dir [])"
    by auto
  have frame1: "lookup fs1 x = lookup fs x" if "\<not> prefix ?m x" "\<not> prefix x ?m" for x
    by (rule lookup_modifyAt_frame[OF fs1' that])
  have apart: "\<not> prefix ?m s \<and> \<not> prefix s ?m" if s: "s \<in> set dirs" for s
  proof
    from assms(4) s obtain es where es: "lookup fs s = Some (Dir es)" by auto
    from assms(9) s have ns: "\<not> prefix s ?m" by blast
    show "\<not> prefix ?m s"
    proof
      assume "prefix ?m s"
      then obtain z where z: "s = ?m @ z" by (auto simp: prefix_def)
      show False
      proof (cases z)
        case Nil
        with z ns show False by simp
      next
        case (Cons k z')
        with z es have "lookup fs ((?m @ [k]) @ z') = Some (Dir es)" by simp
        from lookup_prefix_exists[OF this] have "lookup fs (?m @ [k]) \<noteq> None" .
        with assms(8) show False by simp
      qed
    qed
    from ns show "\<not> prefix s ?m" .
  qed
  have same1: "lookup fs1 (s @ q) = lookup fs (s @ q)" if "s \<in> set dirs" for s q
    using frame1[of "s @ q"] apart_append[of ?m s q] apart[OF that] by blast
  have ksame1: "kindAt fs1 (s @ q) = kindAt fs (s @ q)" if "s \<in> set dirs" for s q
    using same1[OF that, of q] by (simp add: kindAt_def)
  have p1: "\<forall>s \<in> set (rev dirs). \<exists>es. lookup fs1 s = Some (Dir es) \<and> wf_node (Dir es)"
  proof
    fix s assume "s \<in> set (rev dirs)"
    then have s: "s \<in> set dirs" by simp
    with assms(4) obtain es where es: "lookup fs s = Some (Dir es)" by auto
    from wf_lookup[OF assms(3) es] es same1[OF s, of "[]"]
    show "\<exists>es. lookup fs1 s = Some (Dir es) \<and> wf_node (Dir es)" by simp
  qed
  have p2: "\<forall>s \<in> set (rev dirs). \<not> prefix ?m s \<and> \<not> prefix s ?m"
    using apart by simp
  have p4: "\<forall>s \<in> set (rev dirs). \<forall>q. \<not> clash (kindAt fs1 (s @ q)) (kindAt (Dir []) q)"
  proof (intro ballI allI)
    fix s q assume "s \<in> set (rev dirs)"
    then have s: "s \<in> set dirs" by simp
    with assms(4) obtain es where es: "lookup fs s = Some (Dir es)" by auto
    show "\<not> clash (kindAt fs1 (s @ q)) (kindAt (Dir []) q)"
    proof (cases "q = []")
      case True
      with ksame1[OF s, of "[]"] es show ?thesis by (simp add: kindAt_def)
    next
      case False
      then show ?thesis by (simp add: kindAt_empty)
    qed
  qed
  have p5: "\<forall>s \<in> set (rev dirs). \<forall>t \<in> set (rev dirs). \<forall>q.
              \<not> clash (kindAt fs1 (s @ q)) (kindAt fs1 (t @ q))"
  proof (intro ballI allI)
    fix s t q assume "s \<in> set (rev dirs)" "t \<in> set (rev dirs)"
    then have s: "s \<in> set dirs" and t: "t \<in> set dirs" by simp_all
    from assms(4) s obtain es where es: "lookup fs s = Some (Dir es)" by auto
    from assms(4) t obtain et where et: "lookup fs t = Some (Dir et)" by auto
    from assms(5) s t have "compatible (orEmpty (lookup fs s)) (orEmpty (lookup fs t))"
      by blast
    then have "compatible (Dir es) (Dir et)"
      by (simp only: es et orEmpty_def option.case)
    from compatible_no_clash[OF this, of q]
    show "\<not> clash (kindAt fs1 (s @ q)) (kindAt fs1 (t @ q))"
      by (simp add: ksame1[OF s] ksame1[OF t] kindAt_append[OF es] kindAt_append[OF et])
  qed
  from copyChain_spec[OF p1 p2 m1 p4 p5] obtain fs' r where
    c: "copyChain fs1 (rev dirs) ?m = Some fs'" and l: "lookup fs' ?m = Some (Dir r)"
    and k: "\<forall>q. q \<noteq> [] \<longrightarrow>
              kindAt (Dir r) q =
                firstSome (map (\<lambda>s. kindAt fs1 (s @ q)) (rev (rev dirs)) @ [kindAt (Dir []) q])"
    and f: "\<forall>x. \<not> prefix ?m x \<and> \<not> prefix x ?m \<longrightarrow> lookup fs' x = lookup fs1 x"
    by blast
  have res: "mergeDirectoryChain fs agentsPaths currentRoot resource Extend includeList =
                 Some (fs', Some ?m)"
    using assms(1,2) fs1 c by (auto simp: mergeDirectoryChain_def Let_def mj)
  have kk: "kindAt fs' (?m @ q) = firstSome (map (\<lambda>s. kindAt fs (s @ q)) dirs)" if "q \<noteq> []" for q
  proof -
    have e1: "map (\<lambda>s. kindAt fs1 (s @ q)) dirs = map (\<lambda>s. kindAt fs (s @ q)) dirs"
      by (rule map_cong) (simp_all add: ksame1)
    have ka: "kindAt fs' (?m @ q) = kindAt (Dir r) q"
      by (rule kindAt_append[OF l])
    from k that have "kindAt (Dir r) q =
        firstSome (map (\<lambda>s. kindAt fs1 (s @ q)) dirs @ [kindAt (Dir []) q])"
      by simp
    with that have "kindAt (Dir r) q = firstSome (map (\<lambda>s. kindAt fs (s @ q)) dirs)"
      unfolding e1 by (simp add: kindAt_empty firstSome_None)
    with ka show ?thesis by (simp only:)
  qed
  have ff: "lookup fs' s = lookup fs s" if "s \<in> set dirs" for s
    using f apart[OF that] same1[OF that, of "[]"] by simp
  from res kk ff show ?thesis by blast
qed

theorem extend_merges_nearest_wins_witness:
  "\<exists>fs'. mergeDirectoryChain second_tree [near_root, far_root] near_root ''skills'' Extend None =
            Some (fs', Some (near_root @ [''merged'', ''skills''])) \<and>
         kindAt fs' (near_root @ [''merged'', ''skills''] @ [''tool'', ''a.md'']) =
            Some (IsFile ''near a'') \<and>
         kindAt fs' (near_root @ [''merged'', ''skills''] @ [''tool'', ''b.md'']) =
            Some (IsFile ''far b'') \<and>
         kindAt fs' (near_root @ [''merged'', ''skills''] @ [''top.md'']) =
            Some (IsFile ''far top'') \<and>
         kindAt fs' (near_root @ [''merged'', ''skills''] @ [''none.md'']) = None \<and>
         lookup second_tree (near_root @ [''merged'', ''commands'']) =
            Some (Dir [(''c.md'', File ''c'')])"
proof -
  let ?dirs = "[near_root @ [''skills''], far_root @ [''skills'']]"
  let ?m = "near_root @ [''merged'', ''skills'']"
  have h1: "dirsWithContent second_tree [near_root, far_root] ''skills'' = ?dirs"
    by (simp add: dirsWithContent_def pathExists_def join_def near_root_def far_root_def
        second_tree_def)
  have h2: "2 \<le> length ?dirs" by simp
  have h3: "wf_node second_tree" by (simp add: second_tree_def)
  have h4: "\<forall>s \<in> set ?dirs. \<exists>es. lookup second_tree s = Some (Dir es)"
    by (simp add: near_root_def far_root_def second_tree_def)
  have h5: "\<forall>s \<in> set ?dirs. \<forall>t \<in> set ?dirs.
              compatible (orEmpty (lookup second_tree s)) (orEmpty (lookup second_tree t))"
    by (simp add: near_root_def far_root_def second_tree_def orEmpty_def)
  have h6: "?m = join (join near_root MERGED_DIR) ''skills''"
    by (simp add: join_def MERGED_DIR_def)
  have h7: "\<forall>q c. prefix q ?m \<longrightarrow> lookup second_tree q \<noteq> Some (File c)"
    unfolding in_set_prefixes[symmetric]
    by (simp add: near_root_def second_tree_def)
  have h8: "\<forall>n. lookup second_tree (?m @ [n]) = None"
    by (simp add: near_root_def second_tree_def)
  have h9: "\<forall>s \<in> set ?dirs. \<not> prefix s ?m"
    by (simp add: near_root_def far_root_def)
  from extend_merges_nearest_wins[OF h1 h2 h3 h4 h5 h6 h7 h8 h9, of None]
  obtain fs' where r: "mergeDirectoryChain second_tree [near_root, far_root] near_root ''skills''
        Extend None = Some (fs', Some ?m)"
    and k: "\<forall>q. q \<noteq> [] \<longrightarrow>
              kindAt fs' (?m @ q) = firstSome (map (\<lambda>s. kindAt second_tree (s @ q)) ?dirs)"
    by blast
  have e: "firstSome (map (\<lambda>s. kindAt second_tree (s @ [''tool'', ''a.md''])) ?dirs) = Some (IsFile ''near a'')"
    "firstSome (map (\<lambda>s. kindAt second_tree (s @ [''tool'', ''b.md''])) ?dirs) = Some (IsFile ''far b'')"
    "firstSome (map (\<lambda>s. kindAt second_tree (s @ [''top.md''])) ?dirs) = Some (IsFile ''far top'')"
    "firstSome (map (\<lambda>s. kindAt second_tree (s @ [''none.md''])) ?dirs) = None"
    by (simp_all add: kindAt_def near_root_def far_root_def second_tree_def)
  from k[rule_format, of "[''tool'', ''a.md'']"] k[rule_format, of "[''tool'', ''b.md'']"]
    k[rule_format, of "[''top.md'']"] k[rule_format, of "[''none.md'']"] e
  have "kindAt fs' (near_root @ [''merged'', ''skills''] @ [''tool'', ''a.md'']) =
            Some (IsFile ''near a'')"
    "kindAt fs' (near_root @ [''merged'', ''skills''] @ [''tool'', ''b.md'']) =
            Some (IsFile ''far b'')"
    "kindAt fs' (near_root @ [''merged'', ''skills''] @ [''top.md'']) =
            Some (IsFile ''far top'')"
    "kindAt fs' (near_root @ [''merged'', ''skills''] @ [''none.md'']) = None"
    by simp_all
  moreover have "lookup second_tree (near_root @ [''merged'', ''commands'']) =
            Some (Dir [(''c.md'', File ''c'')])"
    by (simp add: near_root_def second_tree_def)
  ultimately show ?thesis using r by blast
qed

text \<open>
  C1 as stated fails in three ways. With the skill \<open>tool\<close> in both roots, what survives
  under the name \<open>tool\<close> is not the near root's directory (one file) but the two
  directories merged (two files). With \<open>tool\<close> a directory in the far root and a file in
  the near one, the resolution returns no directory at all: \<open>fs.copyFile\<close> onto the
  directory copied before throws.
  With a merge directory left from before, its file \<open>old.md\<close>, which no node has, is
  still an entry of the result.
\<close>

theorem extend_not_the_nearest_entry:
  "mergeDirectoryChain nested_tree [near_root, far_root] near_root ''skills'' Extend None =
     Some (nested_merged, Some [''repo'', ''pkg'', ''.agents'', ''merged'', ''skills'']) \<and>
   lookup nested_merged [''repo'', ''pkg'', ''.agents'', ''merged'', ''skills'', ''tool''] =
     Some (Dir [(''a.md'', File ''near a''), (''b.md'', File ''far b'')]) \<and>
   lookup nested_tree [''repo'', ''pkg'', ''.agents'', ''skills'', ''tool''] =
     Some (Dir [(''a.md'', File ''near a'')]) \<and>
   mergeDirectoryChain clash_tree [near_root, far_root] near_root ''skills'' Extend None = None \<and>
   mergeDirectoryChain stale_tree [near_root, far_root] near_root ''skills'' Extend None =
     Some (stale_merged, Some [''repo'', ''pkg'', ''.agents'', ''merged'', ''skills'']) \<and>
   lookup stale_merged [''repo'', ''pkg'', ''.agents'', ''merged'', ''skills'', ''old.md''] =
     Some (File ''old'') \<and>
   lookup stale_tree [''repo'', ''pkg'', ''.agents'', ''skills'', ''old.md''] = None \<and>
   lookup stale_tree [''repo'', ''.agents'', ''skills'', ''old.md''] = None"
  by code_simp

subsection \<open>The merge directory is not rebuilt\<close>

text \<open>
  C2 fails on the code. \<open>getMonorepoMappings\<close> resolves \<open>commands\<close> under \<open>extend\<close> and
  fills \<open><current>/merged/commands\<close> with three files. The command \<open>gone.md\<close> is then
  deleted from the far root, and \<open>getMonorepoMappings\<close> resolves again: \<open>gone.md\<close>, which
  no node has any more, is still in the merge directory that the mapping points to.
  \<open>cleanMergedDir\<close> is called nowhere on the way; called by hand before the second
  resolution, it gives the merge directory the claim describes.
\<close>

theorem merged_directory_keeps_deleted_command:
  "Option.bind
     (getMonorepoMappings commands_tree (\<lambda>text. Some extend_config) test_env compose_chain
        None None (Some [Claude]))
     (\<lambda>(fs1, ms1).
        Option.bind
          (getMonorepoMappings (rmTree fs1 (far_root @ [''commands'', ''gone.md'']))
             (\<lambda>text. Some extend_config) test_env compose_chain None None (Some [Claude]))
          (\<lambda>(fs2, ms2).
             Some (map source ms2,
                   lookup fs2 (far_root @ [''commands'', ''gone.md'']),
                   lookup fs2 (near_root @ [''merged'', ''commands'']))))
   = Some ([near_root @ [''merged'', ''commands'']], None,
           Some (Dir [(''shared.md'', File ''shared''), (''gone.md'', File ''gone''),
                      (''local.md'', File ''local'')])) \<and>
   Option.bind
     (getMonorepoMappings commands_tree (\<lambda>text. Some extend_config) test_env compose_chain
        None None (Some [Claude]))
     (\<lambda>(fs1, ms1).
        Option.bind
          (getMonorepoMappings
             (cleanMergedDir (rmTree fs1 (far_root @ [''commands'', ''gone.md''])) near_root)
             (\<lambda>text. Some extend_config) test_env compose_chain None None (Some [Claude]))
          (\<lambda>(fs2, ms2).
             Some (map source ms2, lookup fs2 (near_root @ [''merged'', ''commands'']))))
   = Some ([near_root @ [''merged'', ''commands'']],
           Some (Dir [(''shared.md'', File ''shared''), (''local.md'', File ''local'')]))"
  by code_simp

subsection \<open>The \<open>compose\<close> scenario\<close>

text \<open>
  C3. The near root's configuration resolves \<open>commands\<close> to \<open>compose\<close> with the include
  list \<open>[build.md]\<close>; the far root has \<open>build.md\<close> and \<open>deploy.md\<close>, the near root has
  \<open>local.md\<close>, whatever the files hold. Resolving \<open>commands\<close> returns
  \<open><current>/merged/commands\<close>, a directory whose entries are \<open>build.md\<close> of the far root
  and \<open>local.md\<close> of the near root, and nothing else; \<open>getMonorepoMappings\<close> makes it the
  source of the \<open>commands\<close> mapping.
\<close>

theorem compose_scenario:
  assumes "parse yaml = Some compose_config"
  shows "getExtendBehavior (loadMonorepoConfig (compose_tree yaml build deploy local) parse near_root)
            ResCommands = Compose \<and>
         includeFor (loadMonorepoConfig (compose_tree yaml build deploy local) parse near_root)
            ResCommands = Some [''build.md''] \<and>
         (\<exists>fs'. mergeDirectoryChain (compose_tree yaml build deploy local)
                   (getEffectiveChain compose_chain) near_root ''commands'' Compose
                   (Some [''build.md'']) =
                 Some (fs', Some (near_root @ [''merged'', ''commands''])) \<and>
               lookup fs' (near_root @ [''merged'', ''commands'']) =
                 Some (Dir [(''build.md'', File build), (''local.md'', File local)]) \<and>
               getMonorepoMappings (compose_tree yaml build deploy local) parse test_env
                   compose_chain None None (Some [Claude]) =
                 Some (fs', [\<lparr> name = ''commands'', source = near_root @ [''merged'', ''commands''],
                               targets = [[''repo'', ''pkg'', ''.claude'', ''commands'']],
                               kind = DirKind \<rparr>]))"
proof -
  let ?t = "compose_tree yaml build deploy local"
  have cfg: "loadMonorepoConfig ?t parse near_root = compose_config"
    using assms
    by (simp add: loadMonorepoConfig_def compose_tree_def near_root_def join_def pathExists_def
        readText_def)
  have b: "getExtendBehavior compose_config ResCommands = Compose"
    "getExtendBehavior compose_config ResAgentsMd = Inherit"
    "getExtendBehavior compose_config ResHooks = Inherit"
    "getExtendBehavior compose_config ResSkills = Inherit"
    by code_simp+
  have i: "includeFor compose_config ResCommands = Some [''build.md'']"
    "includeFor compose_config ResHooks = None" "includeFor compose_config ResSkills = None"
    by code_simp+
  have e: "getEffectiveChain compose_chain = [near_root, far_root]"
    by (simp add: getEffectiveChain_def compose_chain_def)
  define fs' where "fs' =
     Dir [(''repo'', Dir [
       (''.agents'', Dir [(''commands'', Dir [
          (''build.md'', File build), (''deploy.md'', File deploy)])]),
       (''pkg'', Dir [(''.agents'', Dir [
          (''config.yaml'', File yaml),
          (''commands'', Dir [(''local.md'', File local)]),
          (''merged'', Dir [(''commands'', Dir [
             (''build.md'', File build), (''local.md'', File local)])])])])])]"
  have m: "mergeDirectoryChain ?t [near_root, far_root] near_root ''commands'' Compose
             (Some [''build.md'']) = Some (fs', Some (near_root @ [''merged'', ''commands'']))"
    by (simp add: mergeDirectoryChain_def mergeCompose_def compose_tree_def near_root_def
        far_root_def join_def pathExists_def List.map_filter_def endsWithSlash_def MERGED_DIR_def
        copyFile_def copyDirectoryContents_def copyTree.simps fs'_def Let_def)
  have l: "lookup fs' (near_root @ [''merged'', ''commands'']) =
             Some (Dir [(''build.md'', File build), (''local.md'', File local)])"
    by (simp add: fs'_def near_root_def)
  have a: "mergeAgentsMd ?t [near_root, far_root] near_root Inherit = Some (?t, None)"
    by (simp add: mergeAgentsMd_def claudeOrAgents_def compose_tree_def near_root_def
        far_root_def join_def pathExists_def)
  have h: "mergeDirectoryChain fs' [near_root, far_root] near_root r Inherit None = Some (fs', None)"
    if "r = ''hooks'' \<or> r = ''skills''" for r
    using that
    by (auto simp: mergeDirectoryChain_def fs'_def near_root_def far_root_def join_def
        pathExists_def)
  have c: "current compose_chain = Some near_root"
    by (simp add: compose_chain_def)
  have r: "claudeRoot (resolveMonorepoRoots test_env compose_chain None None) =
             [''repo'', ''pkg'', ''.claude'']"
    by code_simp
  have g: "getMonorepoMappings ?t parse test_env compose_chain None None (Some [Claude]) =
             Some (fs', [\<lparr> name = ''commands'', source = near_root @ [''merged'', ''commands''],
                           targets = [[''repo'', ''pkg'', ''.claude'', ''commands'']],
                           kind = DirKind \<rparr>])"
    by (simp add: getMonorepoMappings_def Let_def e c cfg b i a m h commandsMapping_def ifHas_def
        r join_def List.map_filter_def)
  from b(1) i(1) m l g show ?thesis
    unfolding cfg e by blast
qed

theorem compose_scenario_witness:
  "(\<lambda>text. Some compose_config) ''extends: ...'' = Some compose_config \<and>
   (\<exists>fs'. mergeDirectoryChain (compose_tree ''extends: ...'' ''B'' ''D'' ''L'')
             (getEffectiveChain compose_chain) near_root ''commands'' Compose (Some [''build.md'']) =
           Some (fs', Some (near_root @ [''merged'', ''commands''])) \<and>
         lookup fs' (near_root @ [''merged'', ''commands'']) =
           Some (Dir [(''build.md'', File ''B''), (''local.md'', File ''L'')]))"
proof -
  have h: "(\<lambda>text. Some compose_config) ''extends: ...'' = Some compose_config" by simp
  from compose_scenario[of "\<lambda>text. Some compose_config" "''extends: ...''" "''B''" "''D''" "''L''", OF h]
  show ?thesis by blast
qed

end
